theory Spec2Isabelle
  imports Complex_Main
begin

section \<open>Strings and numbers of the host language\<close>

text \<open>
  A string is a list of code units; the model covers the code units below 256, so a
  \<^typ>\<open>char\<close> is one code unit. In that range the white space that \<open>trim\<close> strips
  and that \<open>\s\<close> matches is TAB, LF, VT, FF, CR, SPACE and NBSP.
\<close>

definition isWhiteSpace :: "char \<Rightarrow> bool" where
  "isWhiteSpace c = (c \<in> set [CHR 0x09, CHR 0x0A, CHR 0x0B, CHR 0x0C, CHR 0x0D, CHR 0x20, CHR 0xA0])"

definition trim :: "string \<Rightarrow> string" where
  "trim s = rev (dropWhile isWhiteSpace (rev (dropWhile isWhiteSpace s)))"

text \<open>\<open>Array.prototype.join\<close> on an array of strings.\<close>

fun join :: "string \<Rightarrow> string list \<Rightarrow> string" where
  "join sep [] = []"
| "join sep [x] = x"
| "join sep (x # y # ys) = x @ sep @ join sep (y # ys)"

text \<open>
  A number is a double: NaN, one of the two infinities (which a JSON parser yields for a
  literal such as \<open>1e999\<close>), or a finite double, held as the rational that is its value.
\<close>

datatype jsnum = NaN | PosInf | NegInf | Fin rat

text \<open>
  Two operations of the host on finite doubles are not written out here and are taken as
  parameters: how it prints a finite number that is not an integer of magnitude below
  \<open>2^53\<close> (the shortest decimal that reads back as the same double, in exponent notation
  from \<open>1e21\<close> on), and how it rounds the quotient of a dividend of magnitude \<open>2^53\<close> or
  more.
\<close>

record host =
  host_toString :: "rat \<Rightarrow> string"
  host_divide :: "rat \<Rightarrow> rat \<Rightarrow> rat"

definition digit :: "nat \<Rightarrow> char" where
  "digit d = ''0123456789'' ! (d mod 10)"

text \<open>Decimal digits of a natural number.\<close>

fun dec :: "nat \<Rightarrow> string" where
  "dec n = (if n < 10 then [digit n] else dec (n div 10) @ [digit (n mod 10)])"

declare dec.simps [simp del]

definition dec_int :: "int \<Rightarrow> string" where
  "dec_int i = (if i < 0 then CHR ''-'' # dec (nat (- i)) else dec (nat i))"

text \<open>
  \<open>String(n)\<close> and \<open>n.toString()\<close> for a number \<open>n\<close>. An integer of magnitude below
  \<open>2^53\<close> prints as its decimal digits; every other finite number as the host prints it.
\<close>

definition Number_toString :: "host \<Rightarrow> jsnum \<Rightarrow> string" where
  "Number_toString h n =
     (case n of
        NaN \<Rightarrow> ''NaN''
      | PosInf \<Rightarrow> ''Infinity''
      | NegInf \<Rightarrow> ''-Infinity''
      | Fin q \<Rightarrow>
          if of_int \<lfloor>q\<rfloor> = q \<and> \<bar>q\<bar> < 2 ^ 53 then dec_int \<lfloor>q\<rfloor> else host_toString h q)"

text \<open>\<open>Math.floor(n)\<close>, which is exact on every double.\<close>

definition Math_floor :: "jsnum \<Rightarrow> jsnum" where
  "Math_floor n = (case n of Fin q \<Rightarrow> Fin (of_int \<lfloor>q\<rfloor>) | _ \<Rightarrow> n)"

text \<open>\<open>Math.max(0, n)\<close>.\<close>

definition Math_max0 :: "jsnum \<Rightarrow> jsnum" where
  "Math_max0 n =
     (case n of
        NaN \<Rightarrow> NaN
      | PosInf \<Rightarrow> PosInf
      | NegInf \<Rightarrow> Fin 0
      | Fin q \<Rightarrow> Fin (max 0 q))"

text \<open>
  \<open>n / d\<close> for a positive finite divisor \<open>d\<close>. The program divides whole numbers of
  seconds by 3600 and by 60 and floors the quotient at once. For a dividend of magnitude
  below \<open>2^53\<close> the model keeps the exact quotient: the quotient the host rounds has the
  same floor, since the exact quotient of an integer by 3600 lies at least \<open>1/3600\<close> below
  the next integer, and below \<open>2^42\<close> neighbouring doubles are at most \<open>2^-11\<close> apart. For
  a dividend of magnitude \<open>2^53\<close> or more the quotient is the host's.
\<close>

definition js_divide :: "host \<Rightarrow> jsnum \<Rightarrow> rat \<Rightarrow> jsnum" where
  "js_divide h n d =
     (case n of
        NaN \<Rightarrow> NaN
      | PosInf \<Rightarrow> PosInf
      | NegInf \<Rightarrow> NegInf
      | Fin q \<Rightarrow> Fin (if \<bar>q\<bar> < 2 ^ 53 then q / d else host_divide h q d))"

text \<open>
  \<open>n % d\<close> for a positive finite divisor \<open>d\<close>: the remainder has the sign of the dividend
  and is exact on doubles; the remainder of an infinity is NaN.
\<close>

definition js_remainder :: "jsnum \<Rightarrow> rat \<Rightarrow> jsnum" where
  "js_remainder n d =
     (case n of
        Fin q \<Rightarrow> Fin (if 0 \<le> q then q - d * of_int \<lfloor>q / d\<rfloor> else - (- q - d * of_int \<lfloor>- q / d\<rfloor>))
      | _ \<Rightarrow> NaN)"

text \<open>\<open>padStart(2, "0")\<close>.\<close>

definition padStart2 :: "string \<Rightarrow> string" where
  "padStart2 s = (if length s < 2 then replicate (2 - length s) (CHR ''0'') @ s else s)"

section \<open>JSON values and exceptions\<close>

text \<open>
  The value a JSON parser returns. An object is the list of its own properties; a parsed
  object has distinct keys, and a lookup takes the first binding.
\<close>

datatype json =
    JNull
  | JBool bool
  | JNum jsnum
  | JStr string
  | JArr "json list"
  | JObj "(string \<times> json) list"

text \<open>
  An expression either throws or has a value: \<open>Inl\<close> is the exception, \<open>Inr\<close> the value.
  The only exception the normalizer could raise is the \<open>TypeError\<close> of reading a property
  of \<open>null\<close>.
\<close>

datatype error = TypeError

definition andThen :: "error + 'a \<Rightarrow> ('a \<Rightarrow> error + 'b) \<Rightarrow> error + 'b" where
  "andThen r f = (case r of Inl e \<Rightarrow> Inl e | Inr v \<Rightarrow> f v)"

text \<open>A loop or a \<open>map\<close> over an array, which ends at the first element that throws.\<close>

fun mapE :: "('a \<Rightarrow> error + 'b) \<Rightarrow> 'a list \<Rightarrow> error + 'b list" where
  "mapE f [] = Inr []"
| "mapE f (x # xs) = andThen (f x) (\<lambda>y. andThen (mapE f xs) (\<lambda>ys. Inr (y # ys)))"

text \<open>
  Reading the property \<open>k\<close> of a value: reading a property of \<open>null\<close> throws; an object
  has the property or not (\<open>None\<close> stands for \<open>undefined\<close>). The program reads only the
  names \<open>segments\<close>, \<open>monologues\<close>, \<open>paragraphs\<close>, \<open>words\<close>, \<open>text\<close>, \<open>speaker\<close>,
  \<open>start\<close>, \<open>elements\<close>, \<open>value\<close>, \<open>descript_url\<close>, \<open>make_webhook_url\<close>, \<open>url\<close> and
  \<open>expand\<close>; an array, a string, a number and a boolean have none of them.
\<close>

definition getProp :: "json \<Rightarrow> string \<Rightarrow> error + json option" where
  "getProp j k =
     (case j of
        JNull \<Rightarrow> Inl TypeError
      | JObj kvs \<Rightarrow> Inr (map_of kvs k)
      | _ \<Rightarrow> Inr None)"

section \<open>The transcript normalizer (variant A)\<close>

definition coerceToString :: "host \<Rightarrow> json option \<Rightarrow> string option" where
  "coerceToString h v =
     (case v of
        Some (JStr s) \<Rightarrow> Some s
      | Some (JNum n) \<Rightarrow> Some (Number_toString h n)
      | _ \<Rightarrow> None)"

text \<open>The filter predicate \<open>Boolean(p && p.trim())\<close> on a string.\<close>

definition nonblank :: "string \<Rightarrow> bool" where
  "nonblank p = (p \<noteq> [] \<and> trim p \<noteq> [])"

definition somes :: "'a option list \<Rightarrow> 'a list" where
  "somes xs = List.map_filter (\<lambda>x. x) xs"

definition safeJoin :: "string option list \<Rightarrow> string \<Rightarrow> string" where
  "safeJoin parts separator = join separator (filter nonblank (somes parts))"

definition formatTimestampSecondsToHHMMSS :: "host \<Rightarrow> jsnum option \<Rightarrow> string option" where
  "formatTimestampSecondsToHHMMSS h seconds =
     (case seconds of
        None \<Rightarrow> None
      | Some NaN \<Rightarrow> None
      | Some n \<Rightarrow>
          let totalSeconds = Math_max0 (Math_floor n);
              hh = padStart2 (Number_toString h (Math_floor (js_divide h totalSeconds 3600)));
              mm = padStart2 (Number_toString h (Math_floor (js_divide h (js_remainder totalSeconds 3600) 60)));
              ss = padStart2 (Number_toString h (Math_floor (js_remainder totalSeconds 60)))
          in Some (hh @ '':'' @ mm @ '':'' @ ss))"

definition isRecord :: "json \<Rightarrow> bool" where
  "isRecord x = (case x of JObj _ \<Rightarrow> True | JArr _ \<Rightarrow> True | _ \<Rightarrow> False)"

definition asArray :: "json option \<Rightarrow> json list option" where
  "asArray x = (case x of Some (JArr xs) \<Rightarrow> Some xs | _ \<Rightarrow> None)"

text \<open>\<open>typeof r["start"] === "number" ? r["start"] : undefined\<close>.\<close>

definition numberOrUndefined :: "json option \<Rightarrow> jsnum option" where
  "numberOrUndefined v = (case v of Some (JNum n) \<Rightarrow> Some n | _ \<Rightarrow> None)"

text \<open>\<open>isRecord(x) ? x : {}\<close>.\<close>

definition recordOrEmpty :: "json \<Rightarrow> json" where
  "recordOrEmpty x = (if isRecord x then x else JObj [])"

text \<open>
  The last two statements of each loop body, which the three line-oriented shapes share:
  the prefix is the bracketed timestamp and the speaker label, and the line is the prefix
  and the text, each joined by a space with blank parts left out.
\<close>

definition formatLine :: "string option \<Rightarrow> string option \<Rightarrow> string option \<Rightarrow> string" where
  "formatLine ts speaker text =
     (let linePrefix =
            safeJoin [case ts of Some t \<Rightarrow> if t \<noteq> [] then Some (''['' @ t @ '']'') else None | None \<Rightarrow> None,
                      case speaker of Some sp \<Rightarrow> if sp \<noteq> [] then Some (sp @ '':'') else None | None \<Rightarrow> None]
                     '' ''
      in safeJoin [Some linePrefix, text] '' '')"

text \<open>The body of the loop over \<open>segments\<close>, and word for word that over \<open>paragraphs\<close>.\<close>

definition segmentLine :: "host \<Rightarrow> json \<Rightarrow> error + string" where
  "segmentLine h segment =
     (let r = recordOrEmpty segment
      in andThen (getProp r ''speaker'') (\<lambda>speakerValue.
         andThen (getProp r ''text'') (\<lambda>textValue.
         andThen (getProp r ''start'') (\<lambda>startValue.
           let speaker = coerceToString h speakerValue;
               text = coerceToString h textValue;
               start = numberOrUndefined startValue;
               ts = formatTimestampSecondsToHHMMSS h start
           in Inr (formatLine ts speaker text)))))"

text \<open>The text of a monologue: the \<open>map\<close>, \<open>filter\<close>, \<open>join("")\<close> chain over its elements.\<close>

definition elementValue :: "host \<Rightarrow> json \<Rightarrow> error + string option" where
  "elementValue h el =
     (if isRecord el then andThen (getProp el ''value'') (\<lambda>v. Inr (coerceToString h v)) else Inr None)"

definition monologueText :: "host \<Rightarrow> json list \<Rightarrow> error + string" where
  "monologueText h elements =
     andThen (mapE (elementValue h) elements) (\<lambda>values.
       Inr (join [] (filter nonblank (somes values))))"

definition monologueLine :: "host \<Rightarrow> json \<Rightarrow> error + string" where
  "monologueLine h monologue =
     (let r = recordOrEmpty monologue
      in andThen (getProp r ''speaker'') (\<lambda>speakerValue.
         andThen (getProp r ''start'') (\<lambda>startValue.
         andThen (if isRecord monologue then andThen (getProp r ''elements'') (\<lambda>v. Inr (asArray v))
                  else Inr None) (\<lambda>elements.
         andThen (case elements of
                    Some els \<Rightarrow> andThen (monologueText h els) (\<lambda>t. Inr (Some t))
                  | None \<Rightarrow> Inr None) (\<lambda>text.
           let speaker = coerceToString h speakerValue;
               start = numberOrUndefined startValue;
               ts = formatTimestampSecondsToHHMMSS h start
           in Inr (formatLine ts speaker text))))))"

text \<open>
  One probe of a line-oriented shape: the array under \<open>key\<close>, one line per element, empty
  lines not pushed; \<open>Some\<close> is the \<open>return\<close> taken when at least one line was pushed,
  \<open>None\<close> is falling through to the next probe.
\<close>

definition linesShape :: "(json \<Rightarrow> error + string) \<Rightarrow> string \<Rightarrow> json \<Rightarrow> error + string option" where
  "linesShape lineOf key jsonData =
     (if isRecord jsonData then
        andThen (getProp jsonData key) (\<lambda>v.
          case asArray v of
            Some items \<Rightarrow>
              andThen (mapE lineOf items) (\<lambda>built.
                let lines = filter (\<lambda>line. line \<noteq> []) built
                in if length lines > 0 then Inr (Some (join [CHR 0x0A] lines)) else Inr None)
          | None \<Rightarrow> Inr None)
      else Inr None)"

text \<open>The probe of the \<open>words\<close> shape returns whenever \<open>words\<close> is an array.\<close>

definition wordText :: "host \<Rightarrow> json \<Rightarrow> error + string option" where
  "wordText h w =
     (if isRecord w then andThen (getProp w ''text'') (\<lambda>v. Inr (coerceToString h v)) else Inr None)"

definition wordsShape :: "host \<Rightarrow> json \<Rightarrow> error + string option" where
  "wordsShape h jsonData =
     (if isRecord jsonData then
        andThen (getProp jsonData ''words'') (\<lambda>v.
          case asArray v of
            Some ws \<Rightarrow>
              andThen (mapE (wordText h) ws) (\<lambda>texts.
                Inr (Some (join '' '' (filter nonblank (somes texts)))))
          | None \<Rightarrow> Inr None)
      else Inr None)"

definition textShape :: "json \<Rightarrow> error + string option" where
  "textShape jsonData =
     (if isRecord jsonData then
        andThen (getProp jsonData ''text'') (\<lambda>v.
          case v of Some (JStr s) \<Rightarrow> Inr (Some s) | _ \<Rightarrow> Inr None)
      else Inr None)"

text \<open>The five probes in their order; a probe that returns ends the function.\<close>

definition orElse :: "error + 'a option \<Rightarrow> (error + 'a) \<Rightarrow> error + 'a" where
  "orElse probe rest = andThen probe (\<lambda>r. case r of Some out \<Rightarrow> Inr out | None \<Rightarrow> rest)"

definition transformTranscriptJsonToText :: "host \<Rightarrow> json \<Rightarrow> error + string" where
  "transformTranscriptJsonToText h jsonData =
     orElse (linesShape (segmentLine h) ''segments'' jsonData)
    (orElse (linesShape (monologueLine h) ''monologues'' jsonData)
    (orElse (linesShape (segmentLine h) ''paragraphs'' jsonData)
    (orElse (wordsShape h jsonData)
    (orElse (textShape jsonData)
    (Inr [])))))"

section \<open>Regular expressions of the host language\<close>

text \<open>
  The program's four patterns use literals, character classes, the greedy quantifiers
  \<open>*\<close> and \<open>+\<close> on a class, one capturing group, and the anchors \<open>^\<close> and \<open>$\<close>.
  A pattern is the list of its items in order.
\<close>

datatype cset = Chars string | NotChars string | WhiteSpaceClass | Ranges "(char \<times> char) list"

datatype item = Lit string | One cset | Star cset | Plus cset | Group item | Bol | Eol

datatype regex = Regex (rx_items: "item list") (ignoreCase: bool)

text \<open>
  Under the flag \<open>i\<close> two code units are compared after canonicalization, which maps a
  lower-case ASCII letter to its upper-case letter. (The host also folds letters outside
  ASCII; a code unit outside ASCII is never folded onto an ASCII one, and the patterns of
  this program contain ASCII only.)
\<close>

definition lowerUpper :: "(char \<times> char) list" where
  "lowerUpper = zip ''abcdefghijklmnopqrstuvwxyz'' ''ABCDEFGHIJKLMNOPQRSTUVWXYZ''"

definition canon :: "char \<Rightarrow> char" where
  "canon c = (case map_of lowerUpper c of Some u \<Rightarrow> u | None \<Rightarrow> c)"

definition uncanon :: "char \<Rightarrow> char" where
  "uncanon c = (case map_of (map (\<lambda>(l, u). (u, l)) lowerUpper) c of Some l \<Rightarrow> l | None \<Rightarrow> c)"

definition eqc :: "bool \<Rightarrow> char \<Rightarrow> char \<Rightarrow> bool" where
  "eqc ic c x = (if ic then canon c = canon x else c = x)"

definition in_ranges :: "(char \<times> char) list \<Rightarrow> char \<Rightarrow> bool" where
  "in_ranges rs x =
     list_ex (\<lambda>(lo, hi). (of_char lo :: nat) \<le> of_char x \<and> (of_char x :: nat) \<le> of_char hi) rs"

text \<open>
  Membership in a class; under the flag \<open>i\<close> a code unit is in the class when some member
  has the same canonical form.
\<close>

fun mem :: "bool \<Rightarrow> cset \<Rightarrow> char \<Rightarrow> bool" where
  "mem ic (Chars cs) x = (if ic then canon x \<in> set (map canon cs) else x \<in> set cs)"
| "mem ic (NotChars cs) x = (if ic then canon x \<notin> set (map canon cs) else x \<notin> set cs)"
| "mem ic WhiteSpaceClass x = isWhiteSpace x"
| "mem ic (Ranges rs) x =
     (if ic then in_ranges rs x \<or> in_ranges rs (canon x) \<or> in_ranges rs (uncanon x)
      else in_ranges rs x)"

text \<open>Whether the input starts with a literal.\<close>

fun lit_match :: "bool \<Rightarrow> string \<Rightarrow> string \<Rightarrow> bool" where
  "lit_match ic [] s = True"
| "lit_match ic (c # cs) [] = False"
| "lit_match ic (c # cs) (x # xs) = (if eqc ic c x then lit_match ic cs xs else False)"

text \<open>
  The backtracking matcher at one start position: \<open>p\<close> is the index of the current
  position, \<open>s\<close> the input from there on. The result lists, item by item, the input each
  item consumed. A greedy quantifier first takes one more code unit and gives it back only
  when the rest of the pattern then fails.
\<close>

fun match_here :: "bool \<Rightarrow> item list \<Rightarrow> nat \<Rightarrow> string \<Rightarrow> string list option" where
  "match_here ic [] p s = Some []"
| "match_here ic (Lit l # r) p s =
     (if lit_match ic l s
      then map_option (Cons (take (length l) s)) (match_here ic r (p + length l) (drop (length l) s))
      else None)"
| "match_here ic (One c # r) p s =
     (case s of
        [] \<Rightarrow> None
      | x # xs \<Rightarrow> if mem ic c x then map_option (Cons [x]) (match_here ic r (Suc p) xs) else None)"
| "match_here ic (Star c # r) p s =
     (case s of
        [] \<Rightarrow> map_option (Cons []) (match_here ic r p [])
      | x # xs \<Rightarrow>
          if mem ic c x then
            (case match_here ic (Star c # r) (Suc p) xs of
               Some (piece # pieces) \<Rightarrow> Some ((x # piece) # pieces)
             | _ \<Rightarrow> map_option (Cons []) (match_here ic r p s))
          else map_option (Cons []) (match_here ic r p s))"
| "match_here ic (Plus c # r) p s =
     (case s of
        [] \<Rightarrow> None
      | x # xs \<Rightarrow>
          if mem ic c x then
            (case match_here ic (Star c # r) (Suc p) xs of
               Some (piece # pieces) \<Rightarrow> Some ((x # piece) # pieces)
             | _ \<Rightarrow> None)
          else None)"
| "match_here ic (Group it # r) p s = match_here ic (it # r) p s"
| "match_here ic (Bol # r) p s = (if p = 0 then map_option (Cons []) (match_here ic r p s) else None)"
| "match_here ic (Eol # r) p s = (if s = [] then map_option (Cons []) (match_here ic r p s) else None)"

text \<open>The search for the leftmost start position that matches, from index \<open>p\<close> on.\<close>

fun search :: "bool \<Rightarrow> item list \<Rightarrow> nat \<Rightarrow> string \<Rightarrow> (nat \<times> string list) option" where
  "search ic items p [] = map_option (Pair p) (match_here ic items p [])"
| "search ic items p (x # xs) =
     (case match_here ic items p (x # xs) of
        Some pieces \<Rightarrow> Some (p, pieces)
      | None \<Rightarrow> search ic items (Suc p) xs)"

fun is_Group :: "item \<Rightarrow> bool" where
  "is_Group (Group _) = True"
| "is_Group _ = False"

definition groups :: "item list \<Rightarrow> string list \<Rightarrow> string list" where
  "groups items pieces = map snd (filter (\<lambda>(it, _). is_Group it) (zip items pieces))"

text \<open>
  \<open>s.match(rx)\<close> for a pattern without the flag \<open>g\<close>: the matched text (index 0 of the
  result) and the texts of the groups (index 1 on), or \<open>None\<close> for \<open>null\<close>.
\<close>

definition rx_exec :: "regex \<Rightarrow> string \<Rightarrow> (string \<times> string list) option" where
  "rx_exec rx s =
     map_option (\<lambda>(p, pieces). (concat pieces, groups (rx_items rx) pieces))
       (search (ignoreCase rx) (rx_items rx) 0 s)"

definition rx_test :: "regex \<Rightarrow> string \<Rightarrow> bool" where
  "rx_test rx s = (rx_exec rx s \<noteq> None)"

text \<open>\<open>m?.[1]\<close>: the first group of a match, if there is a match.\<close>

definition group1 :: "(string \<times> string list) option \<Rightarrow> string option" where
  "group1 m = (case m of None \<Rightarrow> None | Some (_, gs) \<Rightarrow> (case gs of g # _ \<Rightarrow> Some g | [] \<Rightarrow> None))"

definition dq :: char where
  "dq = CHR 0x22"

definition sq :: char where
  "sq = CHR 0x27"

section \<open>The meta extractor of variant A\<close>

definition metaRegex :: regex where
  "metaRegex = Regex
     [Lit ''<meta'', Plus WhiteSpaceClass, Star (NotChars ''>''), Lit ''property='', One (Chars [dq, sq]),
      Lit ''descript:transcript'', One (Chars [dq, sq]), Star (NotChars ''>''), Lit ''>'']
     True"

definition contentRegex :: regex where
  "contentRegex = Regex
     [Lit ''content='', One (Chars [dq, sq]), Group (Plus (NotChars [dq, sq])), One (Chars [dq, sq])]
     True"

definition extractTranscriptJsonUrlFromHtml :: "string \<Rightarrow> string option" where
  "extractTranscriptJsonUrlFromHtml html =
     (case rx_exec metaRegex html of
        None \<Rightarrow> None
      | Some tagMatch \<Rightarrow> group1 (rx_exec contentRegex (fst tagMatch)))"

section \<open>The patterns of variant B\<close>

definition DESCRIPT_RE :: regex where
  "DESCRIPT_RE = Regex
     [Bol, Lit ''https://share.descript.com/view/'',
      Plus (Ranges [(CHR ''A'', CHR ''Z''), (CHR ''a'', CHR ''z''), (CHR ''0'', CHR ''9'')]), Eol]
     False"

definition META_RE :: regex where
  "META_RE = Regex
     [Lit ''<meta'', Plus WhiteSpaceClass, Lit (''property='' @ [dq] @ ''descript:transcript'' @ [dq]),
      Plus WhiteSpaceClass, Lit (''content='' @ [dq]), Group (Plus (NotChars [dq])), Lit [dq]]
     True"

section \<open>The network\<close>

text \<open>
  A response as the handlers read it: the status, the body as text, and the body parsed
  as JSON (\<open>None\<close> when \<open>json()\<close> throws). A fetch either throws, with a message, or
  yields a response. The network answers a call depending on the calls made before it;
  every handler returns, next to its outcome, the calls it made, in order. The outcome of
  a handler is the response it sends, or \<open>Unhandled\<close> when an exception leaves it.
\<close>

record response =
  resp_status :: nat
  resp_text :: string
  resp_json :: "json option"

datatype fetch_result = Threw string | Responded response

definition ok :: "response \<Rightarrow> bool" where
  "ok r = (200 \<le> resp_status r \<and> resp_status r \<le> 299)"

datatype 'b outcome = Unhandled | Respond nat 'b

section \<open>The handler of variant A\<close>

record metadata =
  source_url :: "string option"
  transcript_json_url :: "string option"
  processing_time :: "int option"

record OutgoingPayload =
  success :: bool
  transcript :: "string option"
  metadata :: metadata
  error :: "string option"

datatype call = HttpGet string | HttpPost string OutgoingPayload

type_synonym network = "call list \<Rightarrow> call \<Rightarrow> fetch_result"

definition noMetadata :: metadata where
  "noMetadata = \<lparr>source_url = None, transcript_json_url = None, processing_time = None\<rparr>"

definition failure :: "metadata \<Rightarrow> string \<Rightarrow> OutgoingPayload" where
  "failure md msg = \<lparr>success = False, transcript = None, metadata = md, error = Some msg\<rparr>"

text \<open>\<open>body?.k\<close>: \<open>undefined\<close> when the body is \<open>null\<close>, its property otherwise.\<close>

definition optionalProp :: "json \<Rightarrow> string \<Rightarrow> error + json option" where
  "optionalProp body k = (if body = JNull then Inr None else getProp body k)"

text \<open>The test \<open>!x || typeof x !== "string"\<close> fails exactly on a non-empty string.\<close>

definition nonEmptyString :: "json option \<Rightarrow> string option" where
  "nonEmptyString v = (case v of Some (JStr s) \<Rightarrow> if s \<noteq> [] then Some s else None | _ \<Rightarrow> None)"

text \<open>
  The webhook step, lines 291 to 327: post the payload, and answer 200 with the payload
  itself when the webhook answered with a 2xx status, otherwise with the payload marked as
  failed. A post that throws is caught and leaves the status at 0.
\<close>

definition deliver :: "network \<Rightarrow> call list \<Rightarrow> string \<Rightarrow> OutgoingPayload
    \<Rightarrow> OutgoingPayload outcome \<times> call list" where
  "deliver net trace makeWebhookUrl outgoing =
     (let webhook = (case net trace (HttpPost makeWebhookUrl outgoing) of
                       Responded webhookResponse \<Rightarrow> (ok webhookResponse, resp_status webhookResponse)
                     | Threw _ \<Rightarrow> (False, 0));
          webhookOk = fst webhook;
          webhookStatus = snd webhook;
          responsePayload =
            (if webhookOk then outgoing
             else outgoing\<lparr>success := False,
                    error := Some (if webhookStatus > 0
                                   then ''Make webhook returned HTTP '' @ dec webhookStatus
                                   else ''Failed to deliver results to Make webhook'')\<rparr>)
      in (Respond 200 responsePayload, trace @ [HttpPost makeWebhookUrl outgoing]))"

text \<open>
  The answer of the outer \<open>catch\<close>, lines 328 to 335, to an exception with the message
  \<open>msg\<close>.
\<close>

definition unexpected :: "string \<Rightarrow> OutgoingPayload outcome" where
  "unexpected msg = Respond 500 (failure noMetadata (''Unexpected error: '' @ msg))"

text \<open>
  The body of the outer \<open>try\<close>, lines 224 to 327. Whatever throws in it is caught by the
  outer \<open>catch\<close>; the message of the \<open>TypeError\<close> is the host's, \<open>typeErrorMessage\<close>.
\<close>

definition extractAndForward :: "host \<Rightarrow> string \<Rightarrow> network \<Rightarrow> int \<Rightarrow> int \<Rightarrow> string \<Rightarrow> string
    \<Rightarrow> OutgoingPayload outcome \<times> call list" where
  "extractAndForward h typeErrorMessage net startedAt now descriptUrl makeWebhookUrl =
     (case net [] (HttpGet descriptUrl) of
        Threw msg \<Rightarrow> (unexpected msg, [HttpGet descriptUrl])
      | Responded shareResponse \<Rightarrow>
          if \<not> ok shareResponse then
            (Respond 502 (failure (noMetadata\<lparr>source_url := Some descriptUrl\<rparr>)
                     (''Failed to fetch Descript page: HTTP '' @ dec (resp_status shareResponse))),
             [HttpGet descriptUrl])
          else
            (case extractTranscriptJsonUrlFromHtml (resp_text shareResponse) of
               None \<Rightarrow>
                 (Respond 422 (failure (noMetadata\<lparr>source_url := Some descriptUrl\<rparr>)
                          ''Unable to locate transcript JSON URL in page HTML''),
                  [HttpGet descriptUrl])
             | Some transcriptJsonUrl \<Rightarrow>
                 if transcriptJsonUrl = [] then
                   (Respond 422 (failure (noMetadata\<lparr>source_url := Some descriptUrl\<rparr>)
                            ''Unable to locate transcript JSON URL in page HTML''),
                    [HttpGet descriptUrl])
                 else
                   (case net [HttpGet descriptUrl] (HttpGet transcriptJsonUrl) of
                      Threw msg \<Rightarrow> (unexpected msg, [HttpGet descriptUrl, HttpGet transcriptJsonUrl])
                    | Responded transcriptResponse \<Rightarrow>
                        (let md = noMetadata\<lparr>source_url := Some descriptUrl,
                                              transcript_json_url := Some transcriptJsonUrl\<rparr>;
                             trace = [HttpGet descriptUrl, HttpGet transcriptJsonUrl]
                         in if \<not> ok transcriptResponse then
                              (Respond 502 (failure md (''Failed to fetch transcript JSON: HTTP ''
                                                  @ dec (resp_status transcriptResponse))), trace)
                            else
                              (case resp_json transcriptResponse of
                                 None \<Rightarrow> (Respond 422 (failure md ''Transcript JSON parsing failed''), trace)
                               | Some transcriptJson \<Rightarrow>
                                   (case transformTranscriptJsonToText h transcriptJson of
                                      Inl e \<Rightarrow> (unexpected typeErrorMessage, trace)
                                    | Inr transcriptText \<Rightarrow>
                                        if transcriptText = [] \<or> length (trim transcriptText) = 0 then
                                          (Respond 422
                                             (failure md ''Transcript JSON did not contain recognizable text''),
                                           trace)
                                        else
                                          (let durationMs = now - startedAt;
                                               outgoing = \<lparr>success = True, transcript = Some transcriptText,
                                                           metadata = \<lparr>source_url = Some descriptUrl,
                                                                        transcript_json_url = Some transcriptJsonUrl,
                                                                        processing_time = Some durationMs\<rparr>,
                                                           error = None\<rparr>
                                           in deliver net trace makeWebhookUrl outgoing)))))))"

text \<open>
  \<open>POST\<close> of variant A. The request body is given as the result of \<open>request.json()\<close>,
  \<open>None\<close> when that throws; \<open>startedAt\<close> and \<open>now\<close> are the two readings of the clock.
  The two reads of the body stand before the \<open>try\<close>.
\<close>

definition POST_A :: "host \<Rightarrow> string \<Rightarrow> network \<Rightarrow> int \<Rightarrow> int \<Rightarrow> json option
    \<Rightarrow> OutgoingPayload outcome \<times> call list" where
  "POST_A h typeErrorMessage net startedAt now requestJson =
     (case requestJson of
        None \<Rightarrow> (Respond 400 (failure noMetadata ''Invalid JSON body''), [])
      | Some body \<Rightarrow>
          (case optionalProp body ''descript_url'' of
             Inl e \<Rightarrow> (Unhandled, [])
           | Inr descriptUrlValue \<Rightarrow>
          (case optionalProp body ''make_webhook_url'' of
             Inl e \<Rightarrow> (Unhandled, [])
           | Inr makeWebhookUrlValue \<Rightarrow>
          (case nonEmptyString descriptUrlValue of
             None \<Rightarrow>
               (Respond 400 (failure noMetadata (''Missing or invalid '' @ [sq] @ ''descript_url'' @ [sq])),
                [])
           | Some descriptUrl \<Rightarrow>
               (case nonEmptyString makeWebhookUrlValue of
                  None \<Rightarrow>
                    (Respond 400 (failure (noMetadata\<lparr>source_url := Some descriptUrl\<rparr>)
                             (''Missing or invalid '' @ [sq] @ ''make_webhook_url'' @ [sq])), [])
                | Some makeWebhookUrl \<Rightarrow>
                    extractAndForward h typeErrorMessage net startedAt now descriptUrl makeWebhookUrl)))))"

section \<open>The handlers of variant B\<close>

text \<open>
  A response of variant B is \<open>{ ok: false, error }\<close> or \<open>{ ok: true, transcriptUrl }\<close>,
  the latter with the transcript document when it was expanded. Variant B catches nothing:
  a fetch or a \<open>json()\<close> that throws leaves the handler with the exception.
\<close>

datatype body_B = ErrorBody string | OkBody string "json option"

definition bad :: "string \<Rightarrow> nat \<Rightarrow> body_B outcome" where
  "bad msg status = Respond status (ErrorBody msg)"

datatype 'a thrown = Throws | Returns 'a

text \<open>\<open>getTranscriptUrl\<close> fetches the share page and matches its text, whatever its status.\<close>

definition getTranscriptUrl :: "network \<Rightarrow> string \<Rightarrow> string option thrown" where
  "getTranscriptUrl net shareUrl =
     (case net [] (HttpGet shareUrl) of
        Threw _ \<Rightarrow> Throws
      | Responded res \<Rightarrow> Returns (group1 (rx_exec META_RE (resp_text res))))"

text \<open>
  The statements after the validation, which \<open>GET\<close> and \<open>POST\<close> share word for word.
\<close>

definition respondWithTranscript :: "network \<Rightarrow> string \<Rightarrow> bool \<Rightarrow> body_B outcome \<times> call list" where
  "respondWithTranscript net shareUrl expand =
     (case getTranscriptUrl net shareUrl of
        Throws \<Rightarrow> (Unhandled, [HttpGet shareUrl])
      | Returns found \<Rightarrow>
          (case found of
             None \<Rightarrow> (bad ''transcript meta not found'' 404, [HttpGet shareUrl])
           | Some transcriptUrl \<Rightarrow>
               if transcriptUrl = [] then (bad ''transcript meta not found'' 404, [HttpGet shareUrl])
               else if \<not> expand then (Respond 200 (OkBody transcriptUrl None), [HttpGet shareUrl])
               else
                 (case net [HttpGet shareUrl] (HttpGet transcriptUrl) of
                    Threw _ \<Rightarrow> (Unhandled, [HttpGet shareUrl, HttpGet transcriptUrl])
                  | Responded tRes \<Rightarrow>
                      if \<not> ok tRes then
                        (bad (''failed to fetch transcript json ('' @ dec (resp_status tRes) @ '')'') 502,
                         [HttpGet shareUrl, HttpGet transcriptUrl])
                      else
                        (case resp_json tRes of
                           None \<Rightarrow> (Unhandled, [HttpGet shareUrl, HttpGet transcriptUrl])
                         | Some transcriptDoc \<Rightarrow>
                             (Respond 200 (OkBody transcriptUrl (Some transcriptDoc)),
                              [HttpGet shareUrl, HttpGet transcriptUrl])))))"

text \<open>
  \<open>GET\<close> of variant B, given the query parameters \<open>u\<close> and \<open>expand\<close> (\<open>None\<close> for an
  absent parameter).
\<close>

definition GET_B :: "network \<Rightarrow> string option \<Rightarrow> string option \<Rightarrow> body_B outcome \<times> call list" where
  "GET_B net u expandParam =
     (let shareUrl = map_option trim u;
          expand = (expandParam = Some ''true'')
      in case shareUrl of
           None \<Rightarrow> (bad ''invalid descript share url'' 400, [])
         | Some url \<Rightarrow>
             if url = [] \<or> \<not> rx_test DESCRIPT_RE url then (bad ''invalid descript share url'' 400, [])
             else respondWithTranscript net url expand)"

text \<open>Truthiness of a value, and \<open>ToString\<close>, which \<open>test\<close> and \<open>fetch\<close> apply to \<open>url\<close>.\<close>

definition truthy :: "json option \<Rightarrow> bool" where
  "truthy v =
     (case v of
        None \<Rightarrow> False
      | Some JNull \<Rightarrow> False
      | Some (JBool b) \<Rightarrow> b
      | Some (JNum NaN) \<Rightarrow> False
      | Some (JNum (Fin q)) \<Rightarrow> q \<noteq> 0
      | Some (JStr s) \<Rightarrow> s \<noteq> []
      | Some _ \<Rightarrow> True)"

fun ToString :: "host \<Rightarrow> json \<Rightarrow> string" where
  "ToString h JNull = ''null''"
| "ToString h (JBool b) = (if b then ''true'' else ''false'')"
| "ToString h (JNum n) = Number_toString h n"
| "ToString h (JStr s) = s"
| "ToString h (JArr xs) = join '','' (map (\<lambda>x. if x = JNull then [] else ToString h x) xs)"
| "ToString h (JObj kvs) = ''[object Object]''"

text \<open>
  \<open>POST\<close> of variant B, given the result of \<open>req.json()\<close> (\<open>None\<close> when it rejects, which
  the handler replaces by \<open>{}\<close>). Destructuring \<open>null\<close> throws.
\<close>

definition POST_B :: "host \<Rightarrow> network \<Rightarrow> json option \<Rightarrow> body_B outcome \<times> call list" where
  "POST_B h net requestJson =
     (let body = (case requestJson of None \<Rightarrow> JObj [] | Some j \<Rightarrow> j)
      in case getProp body ''url'' of
           Inl e \<Rightarrow> (Unhandled, [])
         | Inr url \<Rightarrow>
        (case getProp body ''expand'' of
           Inl e \<Rightarrow> (Unhandled, [])
         | Inr expand \<Rightarrow>
        (case url of
           None \<Rightarrow> (bad ''invalid descript share url'' 400, [])
         | Some u \<Rightarrow>
             if \<not> truthy url then (bad ''invalid descript share url'' 400, [])
             else if \<not> rx_test DESCRIPT_RE (ToString h u) then (bad ''invalid descript share url'' 400, [])
             else respondWithTranscript net (ToString h u) (truthy expand))))"

section \<open>The specification's reading of the normalizer\<close>

text \<open>
  The timestamp as the specification words it: floor to whole seconds, clamp negative
  values to zero, and print hours, minutes and seconds, each as two decimal digits, as
  \<open>HH:MM:SS\<close>.
\<close>

definition two_digits :: "nat \<Rightarrow> string" where
  "two_digits n = [digit (n div 10), digit (n mod 10)]"

definition hhmmss_spec :: "rat \<Rightarrow> string" where
  "hhmmss_spec q =
     (let t = nat (max 0 \<lfloor>q\<rfloor>)
      in two_digits (t div 3600) @ '':'' @ two_digits (t div 60 mod 60) @ '':'' @ two_digits (t mod 60))"

definition isDigit :: "char \<Rightarrow> bool" where
  "isDigit c = (c \<in> set ''0123456789'')"

definition is_HHMMSS :: "string \<Rightarrow> bool" where
  "is_HHMMSS s =
     (case s of
        [h1, h2, c1, m1, m2, c2, s1, s2] \<Rightarrow>
          isDigit h1 \<and> isDigit h2 \<and> c1 = CHR '':'' \<and> isDigit m1 \<and> isDigit m2 \<and> c2 = CHR '':''
          \<and> isDigit s1 \<and> isDigit s2
      | _ \<Rightarrow> False)"

text \<open>
  From one hundred hours on the hours field has more digits: a field is its decimal
  digits, with a zero in front when it is a single digit.
\<close>

definition zero_pad2 :: "nat \<Rightarrow> string" where
  "zero_pad2 n = (if n < 10 then CHR ''0'' # dec n else dec n)"

text \<open>
  The string or number under \<open>value\<close> of an element of a monologue, as a string; and the
  text of a monologue as the specification words it: all element values concatenated
  directly, none dropped.
\<close>

definition valueOf :: "host \<Rightarrow> json \<Rightarrow> string option" where
  "valueOf h el = (case el of JObj kvs \<Rightarrow> coerceToString h (map_of kvs ''value'') | _ \<Rightarrow> None)"

definition monologueText_spec :: "host \<Rightarrow> json list \<Rightarrow> string" where
  "monologueText_spec h elements = concat (somes (map (valueOf h) elements))"

text \<open>An element whose value coerces to a string that is empty or all white space.\<close>

definition blankValue :: "host \<Rightarrow> json \<Rightarrow> bool" where
  "blankValue h el = (case valueOf h el of Some v \<Rightarrow> \<not> nonblank v | None \<Rightarrow> False)"

section \<open>The specification's reading of the patterns\<close>

text \<open>
  The share-URL pattern \<open>^https://share.descript.com/view/[A-Za-z0-9]+$\<close> in words: the
  fixed prefix followed by one or more letters or digits, and nothing else.
\<close>

definition isAlnum :: "char \<Rightarrow> bool" where
  "isAlnum c =
     (let n = of_char c :: nat
      in (65 \<le> n \<and> n \<le> 90) \<or> (97 \<le> n \<and> n \<le> 122) \<or> (48 \<le> n \<and> n \<le> 57))"

definition matches_share_pattern :: "string \<Rightarrow> bool" where
  "matches_share_pattern s =
     (take 32 s = ''https://share.descript.com/view/'' \<and> drop 32 s \<noteq> [] \<and> list_all isAlnum (drop 32 s))"

text \<open>
  What a match is, without the search order: a division of a prefix of the input into one
  piece for each item of the pattern, each piece being text that its item accepts.
\<close>

fun item_ok :: "bool \<Rightarrow> item \<Rightarrow> nat \<Rightarrow> string \<Rightarrow> string \<Rightarrow> bool" where
  "item_ok ic (Lit l) p s pc = (length pc = length l \<and> lit_match ic l pc)"
| "item_ok ic (One c) p s pc = (case pc of [x] \<Rightarrow> mem ic c x | _ \<Rightarrow> False)"
| "item_ok ic (Star c) p s pc = list_all (mem ic c) pc"
| "item_ok ic (Plus c) p s pc = (pc \<noteq> [] \<and> list_all (mem ic c) pc)"
| "item_ok ic (Group it) p s pc = item_ok ic it p s pc"
| "item_ok ic Bol p s pc = (pc = [] \<and> p = 0)"
| "item_ok ic Eol p s pc = (pc = [] \<and> s = [])"

fun fits :: "bool \<Rightarrow> item list \<Rightarrow> nat \<Rightarrow> string \<Rightarrow> string list \<Rightarrow> bool" where
  "fits ic [] p s pcs = (pcs = [])"
| "fits ic (it # r) p s [] = False"
| "fits ic (it # r) p s (pc # pcs) =
     (take (length pc) s = pc \<and> item_ok ic it p s pc
      \<and> fits ic r (p + length pc) (drop (length pc) s) pcs)"

text \<open>Two texts that differ at most in the case of ASCII letters.\<close>

definition same_but_case :: "string \<Rightarrow> string \<Rightarrow> bool" where
  "same_but_case s t = (map canon s = map canon t)"

text \<open>The classes whose members do not depend on the case of a letter.\<close>

fun caseless_item :: "item \<Rightarrow> bool" where
  "caseless_item (One (Ranges rs)) = False"
| "caseless_item (Star (Ranges rs)) = False"
| "caseless_item (Plus (Ranges rs)) = False"
| "caseless_item (Group it) = caseless_item it"
| "caseless_item it = True"

text \<open>No match of the pattern starts at one of the first \<open>n\<close> positions of the input.\<close>

definition no_match_before :: "regex \<Rightarrow> nat \<Rightarrow> string \<Rightarrow> bool" where
  "no_match_before rx n s =
     list_all (\<lambda>k. match_here (ignoreCase rx) (rx_items rx) k (drop k s) = None) [0..<n]"

section \<open>Example documents\<close>

text \<open>
  A host whose division is exact and which prints nothing for the numbers it is asked to
  print; the examples below give it no such number.
\<close>

definition exampleHost :: host where
  "exampleHost = \<lparr>host_toString = (\<lambda>q. []), host_divide = (\<lambda>a b. a / b)\<rparr>"

text \<open>\<open><meta property="descript:transcript" content="https://t/1.json">\<close>\<close>

definition examplePage :: string where
  "examplePage = ''<meta property='' @ [dq] @ ''descript:transcript'' @ [dq] @ '' content='' @ [dq]
      @ ''https://t/1.json'' @ [dq] @ ''>''"

text \<open>\<open><meta content="https://t/1.json" property="descript:transcript">\<close>\<close>

definition reversedPage :: string where
  "reversedPage = ''<meta content='' @ [dq] @ ''https://t/1.json'' @ [dq] @ '' property='' @ [dq]
      @ ''descript:transcript'' @ [dq] @ ''>''"

text \<open>\<open><meta property="Descript:Transcript" content="https://t/1.json">\<close>\<close>

definition otherCasePage :: string where
  "otherCasePage = ''<meta property='' @ [dq] @ ''Descript:Transcript'' @ [dq] @ '' content='' @ [dq]
      @ ''https://t/1.json'' @ [dq] @ ''>''"

text \<open>The transcript document \<open>{"text":"Hi"}\<close>.\<close>

definition exampleDocument :: json where
  "exampleDocument = JObj [(''text'', JStr ''Hi'')]"

text \<open>
  A network on which the first call, if it is a \<open>GET\<close>, is answered with the status
  \<open>pageStatus\<close>, every later \<open>GET\<close> with the status \<open>documentStatus\<close>, both with the
  example page and the example document as body, and every \<open>POST\<close> with \<open>postResult\<close>.
\<close>

definition exampleNetwork :: "nat \<Rightarrow> nat \<Rightarrow> fetch_result \<Rightarrow> network" where
  "exampleNetwork pageStatus documentStatus postResult trace c =
     (case c of
        HttpGet url \<Rightarrow>
          Responded \<lparr>resp_status = (if trace = [] then pageStatus else documentStatus),
                     resp_text = examplePage, resp_json = Some exampleDocument\<rparr>
      | HttpPost url payload \<Rightarrow> postResult)"

text \<open>The request body \<open>{"descript_url":"https://d","make_webhook_url":"https://w"}\<close>.\<close>

definition exampleRequest :: "(string \<times> json) list" where
  "exampleRequest = [(''descript_url'', JStr ''https://d''), (''make_webhook_url'', JStr ''https://w'')]"

section \<open>Properties of the normalizer\<close>

subsection \<open>Exceptions and totality\<close>

lemma andThen_Inr [simp]: "andThen (Inr v) f = f v"
  by (simp add: andThen_def)

lemma andThen_Inl [simp]: "andThen (Inl e) f = Inl e"
  by (simp add: andThen_def)

lemma getProp_JObj [simp]: "getProp (JObj kvs) k = Inr (map_of kvs k)"
  by (simp add: getProp_def)

lemma getProp_JArr [simp]: "getProp (JArr xs) k = Inr None"
  by (simp add: getProp_def)

lemma getProp_record: "isRecord r \<Longrightarrow> \<exists>v. getProp r k = Inr v"
  by (cases r) (simp_all add: isRecord_def)

lemma isRecord_recordOrEmpty [simp]: "isRecord (recordOrEmpty x)"
  by (simp add: recordOrEmpty_def isRecord_def)

lemma mapE_list_all2: "mapE f xs = Inr ys \<longleftrightarrow> list_all2 (\<lambda>x y. f x = Inr y) xs ys"
proof (induction xs arbitrary: ys)
  case Nil
  then show ?case by auto
next
  case (Cons x xs)
  show ?case
  proof (cases "f x")
    case (Inl e)
    then show ?thesis by (auto simp: list_all2_Cons1)
  next
    case (Inr y)
    show ?thesis
    proof (cases "mapE f xs")
      case (Inl e)
      with Cons Inr show ?thesis by (auto simp: list_all2_Cons1)
    next
      case r: (Inr zs)
      with Cons Inr show ?thesis by (auto simp: list_all2_Cons1)
    qed
  qed
qed

lemma mapE_total: "(\<And>x. \<exists>y. f x = Inr y) \<Longrightarrow> \<exists>ys. mapE f xs = Inr ys"
proof (induction xs)
  case Nil
  then show ?case by simp
next
  case (Cons x xs)
  then obtain ys where "mapE f xs = Inr ys" by blast
  moreover from Cons(2) obtain y where "f x = Inr y" by blast
  ultimately show ?case by simp
qed

lemma mapE_map: "(\<And>x. f x = Inr (g x)) \<Longrightarrow> mapE f xs = Inr (map g xs)"
  by (induction xs) simp_all

lemma segmentLine_total: "\<exists>s. segmentLine h seg = Inr s"
proof -
  obtain a b c where "getProp (recordOrEmpty seg) ''speaker'' = Inr a"
    "getProp (recordOrEmpty seg) ''text'' = Inr b" "getProp (recordOrEmpty seg) ''start'' = Inr c"
    using getProp_record [OF isRecord_recordOrEmpty] by metis
  then show ?thesis by (simp add: segmentLine_def Let_def)
qed

lemma elementValue_valueOf: "elementValue h el = Inr (valueOf h el)"
  by (cases el) (simp_all add: elementValue_def valueOf_def isRecord_def coerceToString_def)

lemma monologueText_total: "monologueText h els = Inr (join [] (filter nonblank (somes (map (valueOf h) els))))"
  by (simp add: monologueText_def mapE_map [of "elementValue h" "valueOf h"] elementValue_valueOf)

lemma monologueLine_total: "\<exists>s. monologueLine h m = Inr s"
proof -
  obtain a c where p: "getProp (recordOrEmpty m) ''speaker'' = Inr a"
     "getProp (recordOrEmpty m) ''start'' = Inr c"
    using getProp_record [OF isRecord_recordOrEmpty] by metis
  obtain e where e: "(if isRecord m then andThen (getProp (recordOrEmpty m) ''elements'') (\<lambda>v. Inr (asArray v))
                  else Inr None) = Inr e"
  proof (cases "isRecord m")
    case False
    then show ?thesis using that by simp
  next
    case True
    obtain v where "getProp (recordOrEmpty m) ''elements'' = Inr v"
      using getProp_record [OF isRecord_recordOrEmpty] by blast
    with True show ?thesis using that by simp
  qed
  show ?thesis
    unfolding monologueLine_def Let_def p e
    by (cases e) (simp_all add: monologueText_total)
qed

lemma wordText_total: "\<exists>t. wordText h w = Inr t"
  by (cases w) (simp_all add: wordText_def isRecord_def)

lemma linesShape_total:
  assumes "\<And>x. \<exists>s. lineOf x = Inr s"
  shows "\<exists>r. linesShape lineOf key j = Inr r"
proof (cases "isRecord j")
  case False
  then show ?thesis by (simp add: linesShape_def)
next
  case True
  then obtain v where v: "getProp j key = Inr v" using getProp_record by blast
  show ?thesis
  proof (cases "asArray v")
    case None
    with True v show ?thesis by (simp add: linesShape_def)
  next
    case (Some items)
    from mapE_total [of lineOf items] assms obtain built where "mapE lineOf items = Inr built" by blast
    with True v Some show ?thesis by (simp add: linesShape_def Let_def)
  qed
qed

lemma wordsShape_total: "\<exists>r. wordsShape h j = Inr r"
proof (cases "isRecord j")
  case False
  then show ?thesis by (simp add: wordsShape_def)
next
  case True
  then obtain v where v: "getProp j ''words'' = Inr v" using getProp_record by blast
  show ?thesis
  proof (cases "asArray v")
    case None
    with True v show ?thesis by (simp add: wordsShape_def)
  next
    case (Some ws)
    from mapE_total [of "wordText h" ws] wordText_total obtain ts where "mapE (wordText h) ws = Inr ts" by blast
    with True v Some show ?thesis by (simp add: wordsShape_def)
  qed
qed

lemma textShape_total: "\<exists>r. textShape j = Inr r"
proof (cases "isRecord j")
  case False
  then show ?thesis by (simp add: textShape_def)
next
  case True
  then obtain v where v: "getProp j ''text'' = Inr v" using getProp_record by blast
  with True show ?thesis by (auto simp add: textShape_def split: option.splits json.splits)
qed

lemma orElse_total: "\<exists>r. probe = Inr r \<Longrightarrow> \<exists>out. rest = Inr out \<Longrightarrow> \<exists>out. orElse probe rest = Inr out"
  by (auto simp: orElse_def split: option.splits)

lemma transform_total: "\<exists>out. transformTranscriptJsonToText h j = Inr out"
  unfolding transformTranscriptJsonToText_def
  by (intro orElse_total linesShape_total segmentLine_total monologueLine_total wordsShape_total
      textShape_total) simp

lemma orElse_None [simp]: "orElse (Inr None) rest = rest"
  by (simp add: orElse_def)

lemma orElse_Some [simp]: "orElse (Inr (Some out)) rest = Inr out"
  by (simp add: orElse_def)

lemma transform_not_record: "\<not> isRecord j \<Longrightarrow> transformTranscriptJsonToText h j = Inr []"
  by (simp add: transformTranscriptJsonToText_def linesShape_def wordsShape_def textShape_def)

lemma transform_array: "transformTranscriptJsonToText h (JArr xs) = Inr []"
  by (simp add: transformTranscriptJsonToText_def linesShape_def wordsShape_def textShape_def asArray_def)

lemma transform_no_keys:
  assumes "getProp j ''segments'' = Inr None" "getProp j ''monologues'' = Inr None"
    "getProp j ''paragraphs'' = Inr None" "getProp j ''words'' = Inr None"
    "\<forall>s. getProp j ''text'' \<noteq> Inr (Some (JStr s))"
  shows "transformTranscriptJsonToText h j = Inr []"
proof (cases "isRecord j")
  case False
  then show ?thesis by (rule transform_not_record)
next
  case True
  then obtain v where v: "getProp j ''text'' = Inr v" using getProp_record by blast
  with assms(5) have "(case v of Some (JStr s) \<Rightarrow> Inr (Some s) | _ \<Rightarrow> Inr None) = (Inr None :: error + string option)"
    by (auto split: option.splits json.splits)
  with True v assms(1-4) show ?thesis
    by (simp add: transformTranscriptJsonToText_def linesShape_def wordsShape_def textShape_def asArray_def)
qed

subsection \<open>Decimal digits, padding and the arithmetic of the timestamp\<close>

lemma dec_small: "n < 10 \<Longrightarrow> dec n = [digit n]"
  by (subst dec.simps) simp

lemma dec_two: "10 \<le> n \<Longrightarrow> n < 100 \<Longrightarrow> dec n = [digit (n div 10), digit (n mod 10)]"
  by (subst dec.simps) (simp add: dec_small)

lemma length_dec_ge2: "10 \<le> n \<Longrightarrow> 2 \<le> length (dec n)"
  by (subst dec.simps) (simp add: Suc_le_eq, subst dec.simps, simp)

lemma padStart2_dec: "padStart2 (dec n) = zero_pad2 n"
proof (cases "n < 10")
  case True
  then show ?thesis by (simp add: padStart2_def zero_pad2_def dec_small)
next
  case False
  then have "2 \<le> length (dec n)" by (simp add: length_dec_ge2)
  with False show ?thesis by (simp add: padStart2_def zero_pad2_def)
qed

lemma zero_pad2_two_digits: "n < 100 \<Longrightarrow> zero_pad2 n = two_digits n"
  by (cases "n < 10") (simp_all add: zero_pad2_def two_digits_def dec_small dec_two digit_def)

lemma floor_nat_div: "0 < d \<Longrightarrow> \<lfloor>(of_nat t :: rat) / of_nat d\<rfloor> = int (t div d)"
  by (simp add: floor_divide_of_nat_eq)

lemma remainder_nat:
  assumes "0 < d"
  shows "(of_nat t :: rat) - of_nat d * of_int \<lfloor>(of_nat t :: rat) / of_nat d\<rfloor> = of_nat (t mod d)"
proof -
  have fl: "of_int \<lfloor>(of_nat t :: rat) / of_nat d\<rfloor> = (of_nat (t div d) :: rat)"
    by (simp add: floor_nat_div [OF assms])
  have "(of_nat t :: rat) = of_nat (d * (t div d) + t mod d)" by simp
  also have "\<dots> = of_nat d * of_nat (t div d) + of_nat (t mod d)" by (simp only: of_nat_add of_nat_mult)
  finally have "(of_nat t :: rat) - of_nat d * of_nat (t div d) = of_nat (t mod d)" by linarith
  then show ?thesis by (simp only: fl)
qed

lemma toString_nat: "n < 2 ^ 53 \<Longrightarrow> Number_toString h (Fin (of_nat n)) = dec n"
proof -
  assume "n < 2 ^ 53"
  then have "(of_nat n :: rat) < of_nat (2 ^ 53)" by (simp only: of_nat_less_iff)
  then have "\<bar>of_nat n :: rat\<bar> < 2 ^ 53" by simp
  then show ?thesis by (simp add: Number_toString_def dec_int_def)
qed

lemma divide_floor_nat:
  assumes "t < 2 ^ 53" "0 < d"
  shows "Math_floor (js_divide h (Fin (of_nat t)) (of_nat d)) = Fin (of_nat (t div d))"
proof -
  from assms(1) have "(of_nat t :: rat) < of_nat (2 ^ 53)" by (simp only: of_nat_less_iff)
  then have "\<bar>of_nat t :: rat\<bar> < 2 ^ 53" by simp
  then show ?thesis by (simp add: js_divide_def Math_floor_def floor_nat_div [OF assms(2)])
qed

lemma remainder_floor_nat:
  assumes "0 < d"
  shows "js_remainder (Fin (of_nat t)) (of_nat d) = Fin (of_nat (t mod d))"
  by (simp add: js_remainder_def remainder_nat [OF assms])

lemma total_seconds: "Math_max0 (Math_floor (Fin q)) = Fin (of_nat (nat (max 0 \<lfloor>q\<rfloor>)))"
  by (simp add: Math_max0_def Math_floor_def max_def)

lemma formatTimestamp_finite:
  assumes "\<lfloor>q\<rfloor> < 2 ^ 53"
  shows "formatTimestampSecondsToHHMMSS h (Some (Fin q)) =
     (let t = nat (max 0 \<lfloor>q\<rfloor>)
      in Some (zero_pad2 (t div 3600) @ '':'' @ zero_pad2 (t div 60 mod 60) @ '':'' @ zero_pad2 (t mod 60)))"
proof -
  define t where "t = nat (max 0 \<lfloor>q\<rfloor>)"
  have t: "t < 2 ^ 53" unfolding t_def using assms by (simp add: nat_less_iff)
  have m: "(t mod 3600) div 60 = t div 60 mod 60"
  proof -
    have "t mod 3600 = 60 * (t div 60 mod 60) + t mod 60"
      using mod_mult2_eq [of t 60 60] by simp
    then show ?thesis by simp
  qed
  have r: "t mod 3600 < 2 ^ 53" "t mod 60 < 2 ^ 53" "t div 3600 < 2 ^ 53" "t mod 3600 div 60 < 2 ^ 53"
    using t by (auto intro: le_less_trans [OF mod_less_eq_dividend] le_less_trans [OF div_le_dividend]
               le_less_trans [OF div_le_dividend le_less_trans [OF mod_less_eq_dividend]])
  have d1: "Math_floor (js_divide h (Fin (of_nat t)) 3600) = Fin (of_nat (t div 3600))"
    using divide_floor_nat [OF t, of 3600 h] by simp
  have r1: "js_remainder (Fin (of_nat t)) 3600 = Fin (of_nat (t mod 3600))"
    using remainder_floor_nat [of 3600 t] by simp
  have d2: "Math_floor (js_divide h (Fin (of_nat (t mod 3600))) 60) = Fin (of_nat (t mod 3600 div 60))"
    using divide_floor_nat [OF r(1), of 60 h] by simp
  have r2: "js_remainder (Fin (of_nat t)) 60 = Fin (of_nat (t mod 60))"
    using remainder_floor_nat [of 60 t] by simp
  have f: "Math_floor (Fin (of_nat (t mod 60))) = Fin (of_nat (t mod 60))"
    by (simp add: Math_floor_def)
  note ts = toString_nat [OF r(3), of h] toString_nat [OF r(4), of h, unfolded m] toString_nat [OF r(2), of h]
  show ?thesis
    by (simp add: formatTimestampSecondsToHHMMSS_def total_seconds Let_def d1 r1 d2 r2 f
        ts padStart2_dec m flip: t_def)
qed

lemma two_digits_are_digits: "isDigit (digit n)"
  unfolding digit_def isDigit_def by (rule nth_mem) simp

lemma hhmmss_spec_shape: "is_HHMMSS (hhmmss_spec q)"
  by (simp add: hhmmss_spec_def is_HHMMSS_def two_digits_def two_digits_are_digits Let_def)

lemma formatTimestamp_below_100h:
  assumes "\<lfloor>q\<rfloor> < 360000"
  shows "formatTimestampSecondsToHHMMSS h (Some (Fin q)) = Some (hhmmss_spec q)"
proof -
  define t where "t = nat (max 0 \<lfloor>q\<rfloor>)"
  have t: "t < 360000" unfolding t_def using assms by (simp add: nat_less_iff)
  then have h: "t div 3600 < 100" by simp
  have ms: "t div 60 mod 60 < 100" "t mod 60 < 100"
    by (auto intro: less_trans [OF mod_less_divisor])
  from assms have "\<lfloor>q\<rfloor> < 2 ^ 53" by simp
  from formatTimestamp_finite [OF this, of h] show ?thesis
    by (simp add: hhmmss_spec_def Let_def zero_pad2_two_digits h ms flip: t_def)
qed

subsection \<open>Lines\<close>

lemma nonblank_iff: "nonblank s \<longleftrightarrow> (\<exists>c\<in>set s. \<not> isWhiteSpace c)"
proof -
  have a: "(dropWhile isWhiteSpace xs \<noteq> []) = (\<exists>c\<in>set xs. \<not> isWhiteSpace c)" for xs
    by (simp add: dropWhile_eq_Nil_conv)
  have b: "(\<exists>c\<in>set (dropWhile isWhiteSpace xs). \<not> isWhiteSpace c) = (\<exists>c\<in>set xs. \<not> isWhiteSpace c)" for xs
  proof
    assume "\<exists>c\<in>set (dropWhile isWhiteSpace xs). \<not> isWhiteSpace c"
    then show "\<exists>c\<in>set xs. \<not> isWhiteSpace c" by (blast dest: set_dropWhileD)
  next
    assume "\<exists>c\<in>set xs. \<not> isWhiteSpace c"
    then have "dropWhile isWhiteSpace xs \<noteq> []" by (simp add: a)
    then have "hd (dropWhile isWhiteSpace xs) \<in> set (dropWhile isWhiteSpace xs)"
      and "\<not> isWhiteSpace (hd (dropWhile isWhiteSpace xs))"
      by (simp_all add: hd_dropWhile)
    then show "\<exists>c\<in>set (dropWhile isWhiteSpace xs). \<not> isWhiteSpace c" by blast
  qed
  have "trim s \<noteq> [] \<longleftrightarrow> (\<exists>c\<in>set s. \<not> isWhiteSpace c)"
    unfolding trim_def by (simp add: a b del: dropWhile_eq_Nil_conv)
  then show ?thesis by (auto simp: nonblank_def)
qed

lemma join_Cons: "join sep (x # xs) = x @ (if xs = [] then [] else sep @ join sep xs)"
  by (cases xs) simp_all

lemma somes_Nil [simp]: "somes [] = []"
  by (simp add: somes_def List.map_filter_def)

lemma somes_Cons [simp]: "somes (x # xs) = (case x of None \<Rightarrow> somes xs | Some v \<Rightarrow> v # somes xs)"
  by (simp add: somes_def List.map_filter_def split: option.splits)

lemma bracket_nonblank: "nonblank (CHR ''['' # u)"
  by (simp add: nonblank_iff isWhiteSpace_def)

lemma safeJoin_first_nonblank:
  "nonblank a \<Longrightarrow> \<exists>rest. safeJoin [Some a, b] sep = a @ rest"
  by (cases b) (simp_all add: safeJoin_def join_Cons)

lemma formatLine_timestamp_first:
  assumes "t \<noteq> []"
  shows "\<exists>rest. formatLine (Some t) speaker text = ''['' @ t @ '']'' @ rest"
proof -
  let ?b = "''['' @ t @ '']''"
  let ?lab = "case speaker of Some sp \<Rightarrow> if sp \<noteq> [] then Some (sp @ '':'') else None | None \<Rightarrow> None"
  have nb: "nonblank ?b" using bracket_nonblank by simp
  from safeJoin_first_nonblank [OF nb] obtain r1 where r1: "safeJoin [Some ?b, ?lab] '' '' = ?b @ r1"
    by blast
  have "nonblank (?b @ r1)" using bracket_nonblank by simp
  from safeJoin_first_nonblank [OF this] obtain r2 where
    "safeJoin [Some (?b @ r1), text] '' '' = (?b @ r1) @ r2" by blast
  with r1 assms show ?thesis by (simp add: formatLine_def Let_def)
qed

lemma segmentLine_JObj:
  "segmentLine h (JObj kvs) =
     Inr (formatLine (formatTimestampSecondsToHHMMSS h (numberOrUndefined (map_of kvs ''start'')))
            (coerceToString h (map_of kvs ''speaker'')) (coerceToString h (map_of kvs ''text'')))"
  by (simp add: segmentLine_def recordOrEmpty_def isRecord_def Let_def)

lemma hhmmss_spec_nonempty: "hhmmss_spec q \<noteq> []"
  by (simp add: hhmmss_spec_def two_digits_def Let_def)

lemma segmentLine_timestamp:
  assumes "map_of kvs ''start'' = Some (JNum (Fin q))" "\<lfloor>q\<rfloor> < 360000"
  shows "segmentLine h (JObj kvs) =
           Inr (formatLine (Some (hhmmss_spec q)) (coerceToString h (map_of kvs ''speaker''))
                  (coerceToString h (map_of kvs ''text'')))"
    and "\<exists>rest. segmentLine h (JObj kvs) = Inr (''['' @ hhmmss_spec q @ '']'' @ rest)"
proof -
  show a: "segmentLine h (JObj kvs) =
           Inr (formatLine (Some (hhmmss_spec q)) (coerceToString h (map_of kvs ''speaker''))
                  (coerceToString h (map_of kvs ''text'')))"
    by (simp add: segmentLine_JObj assms(1) numberOrUndefined_def formatTimestamp_below_100h [OF assms(2)])
  from formatLine_timestamp_first [OF hhmmss_spec_nonempty] a
  show "\<exists>rest. segmentLine h (JObj kvs) = Inr (''['' @ hhmmss_spec q @ '']'' @ rest)"
    by metis
qed

lemma transform_segments:
  assumes "getProp j ''segments'' = Inr (Some (JArr segs))"
    and "list_all2 (\<lambda>seg line. segmentLine h seg = Inr line) segs lines"
    and "filter (\<lambda>line. line \<noteq> []) lines \<noteq> []"
  shows "transformTranscriptJsonToText h j = Inr (join [CHR 0x0A] (filter (\<lambda>line. line \<noteq> []) lines))"
proof -
  from assms(1) have r: "isRecord j" by (cases j) (simp_all add: getProp_def isRecord_def)
  from assms(2) have m: "mapE (segmentLine h) segs = Inr lines" by (simp add: mapE_list_all2)
  from r assms(1) m assms(3) show ?thesis
    by (simp add: transformTranscriptJsonToText_def linesShape_def asArray_def Let_def)
qed

lemma segments_example:
  "transformTranscriptJsonToText h
     (JObj [(''segments'', JArr [JObj [(''speaker'', JStr ''Alice''), (''text'', JStr ''Hello''),
        (''start'', JNum (Fin 5))]])]) = Inr ''[00:00:05] Alice: Hello''"
proof -
  have ts: "formatTimestampSecondsToHHMMSS h (Some (Fin 5)) = Some ''00:00:05''"
    using formatTimestamp_below_100h [of 5 h]
    by (simp add: hhmmss_spec_def two_digits_def digit_def)
  show ?thesis
    by (simp add: transformTranscriptJsonToText_def linesShape_def segmentLine_JObj isRecord_def
        asArray_def numberOrUndefined_def coerceToString_def ts formatLine_def safeJoin_def
        nonblank_def trim_def isWhiteSpace_def Let_def)
qed

subsection \<open>The words shape returns even when it is empty\<close>

text \<open>
  C1. The probes run in the order segments, monologues, paragraphs, words, bare text, but
  the words probe returns its result without testing that it is non-empty: on the document
  \<open>{"words":[{"text":""}],"text":"raw"}\<close> the normalizer returns the empty string, not
  the bare text \<open>raw\<close>.
\<close>

theorem words_shape_shadows_text:
  "transformTranscriptJsonToText h
     (JObj [(''words'', JArr [JObj [(''text'', JStr [])]]), (''text'', JStr ''raw'')]) = Inr []"
  by (simp add: transformTranscriptJsonToText_def linesShape_def wordsShape_def wordText_def
     isRecord_def asArray_def coerceToString_def nonblank_def)

subsection \<open>Timestamps\<close>

text \<open>
  C6, amended. The document \<open>{"segments":[{"speaker":"Alice","text":"Hello","start":5}]}\<close>
  normalizes to \<open>[00:00:05] Alice: Hello\<close>. A document whose \<open>segments\<close> is an array
  normalizes to the non-empty lines of its segments, in order, joined by newlines, when
  there is such a line; every segment has a line. For every segment whose \<open>start\<close> is a
  finite number below 360000 seconds (one hundred hours), the line starts with the bracketed
  timestamp, which is that number floored to whole seconds, clamped at zero and printed as
  hours, minutes and seconds of two digits each, \<open>HH:MM:SS\<close>. For a finite start below
  \<open>2^53\<close> seconds each field is its decimal digits with a zero in front of a single digit,
  so from one hundred hours on the hours field has three digits or more.
\<close>

theorem timestamp_below_100_hours:
  "transformTranscriptJsonToText h
     (JObj [(''segments'', JArr [JObj [(''speaker'', JStr ''Alice''), (''text'', JStr ''Hello''),
        (''start'', JNum (Fin 5))]])]) = Inr ''[00:00:05] Alice: Hello''
   \<and> (getProp j ''segments'' = Inr (Some (JArr segs))
        \<and> list_all2 (\<lambda>seg line. segmentLine h seg = Inr line) segs lines
        \<and> filter (\<lambda>line. line \<noteq> []) lines \<noteq> []
      \<longrightarrow> transformTranscriptJsonToText h j = Inr (join [CHR 0x0A] (filter (\<lambda>line. line \<noteq> []) lines)))
   \<and> (\<exists>line. segmentLine h seg = Inr line)
   \<and> (map_of kvs ''start'' = Some (JNum (Fin q)) \<and> \<lfloor>q\<rfloor> < 360000
      \<longrightarrow> is_HHMMSS (hhmmss_spec q)
          \<and> formatTimestampSecondsToHHMMSS h (Some (Fin q)) = Some (hhmmss_spec q)
          \<and> segmentLine h (JObj kvs) =
              Inr (formatLine (Some (hhmmss_spec q)) (coerceToString h (map_of kvs ''speaker''))
                     (coerceToString h (map_of kvs ''text'')))
          \<and> (\<exists>rest. segmentLine h (JObj kvs) = Inr (''['' @ hhmmss_spec q @ '']'' @ rest)))
   \<and> (\<lfloor>q\<rfloor> < 2 ^ 53
      \<longrightarrow> formatTimestampSecondsToHHMMSS h (Some (Fin q)) =
            (let t = nat (max 0 \<lfloor>q\<rfloor>)
             in Some (zero_pad2 (t div 3600) @ '':'' @ zero_pad2 (t div 60 mod 60) @ '':''
                      @ zero_pad2 (t mod 60))))"
  using segments_example [of h] transform_segments [of j segs h lines] segmentLine_total [of h seg]
    hhmmss_spec_shape [of q] formatTimestamp_below_100h [of q h] segmentLine_timestamp [of kvs q h]
    formatTimestamp_finite [of q h]
  by blast

text \<open>
  C6, as stated for every numeric start, fails: the start \<open>Infinity\<close>, which a JSON parser
  yields for \<open>1e999\<close>, prints as \<open>Infinity:NaN:NaN\<close>, and the start 360000 prints as
  \<open>100:00:00\<close>; neither is \<open>HH:MM:SS\<close>.
\<close>

theorem timestamp_infinity_and_100_hours:
  "formatTimestampSecondsToHHMMSS \<lparr>host_toString = (\<lambda>q. []), host_divide = (\<lambda>a b. a / b)\<rparr> (Some PosInf)
     = Some ''Infinity:NaN:NaN''
   \<and> \<not> is_HHMMSS ''Infinity:NaN:NaN''
   \<and> transformTranscriptJsonToText \<lparr>host_toString = (\<lambda>q. []), host_divide = (\<lambda>a b. a / b)\<rparr>
        (JObj [(''segments'', JArr [JObj [(''text'', JStr ''x''), (''start'', JNum PosInf)]])])
     = Inr ''[Infinity:NaN:NaN] x''
   \<and> formatTimestampSecondsToHHMMSS \<lparr>host_toString = (\<lambda>q. []), host_divide = (\<lambda>a b. a / b)\<rparr>
        (Some (Fin 360000))
     = Some ''100:00:00''
   \<and> \<not> is_HHMMSS ''100:00:00''"
proof -
  let ?h = "\<lparr>host_toString = (\<lambda>q. []), host_divide = (\<lambda>a b. a / b)\<rparr>"
  have inf: "formatTimestampSecondsToHHMMSS ?h (Some PosInf) = Some ''Infinity:NaN:NaN''"
    by (simp add: formatTimestampSecondsToHHMMSS_def Math_floor_def Math_max0_def js_divide_def
        js_remainder_def Number_toString_def padStart2_def Let_def)
  have doc: "transformTranscriptJsonToText ?h
        (JObj [(''segments'', JArr [JObj [(''text'', JStr ''x''), (''start'', JNum PosInf)]])])
     = Inr ''[Infinity:NaN:NaN] x''"
    by (simp add: transformTranscriptJsonToText_def linesShape_def segmentLine_JObj isRecord_def
        asArray_def numberOrUndefined_def coerceToString_def inf formatLine_def safeJoin_def
        nonblank_def trim_def isWhiteSpace_def Let_def)
  have h100: "formatTimestampSecondsToHHMMSS ?h (Some (Fin 360000)) = Some ''100:00:00''"
    using formatTimestamp_finite [of 360000 ?h]
    by (simp add: zero_pad2_def dec.simps digit_def)
  show ?thesis
    by (simp add: inf doc h100 is_HHMMSS_def)
qed

theorem timestamp_below_100_hours_witness:
  "getProp (JObj [(''segments'',
        JArr [JObj [(''text'', JStr ''late''), (''start'', JNum (Fin (7451 / 2)))],
              JObj [(''speaker'', JStr ''Bob''), (''text'', JStr ''x'')]])]) ''segments''
     = Inr (Some (JArr [JObj [(''text'', JStr ''late''), (''start'', JNum (Fin (7451 / 2)))],
                        JObj [(''speaker'', JStr ''Bob''), (''text'', JStr ''x'')]]))
   \<and> list_all2 (\<lambda>seg line. segmentLine \<lparr>host_toString = (\<lambda>q. []), host_divide = (\<lambda>a b. a / b)\<rparr> seg = Inr line)
        [JObj [(''text'', JStr ''late''), (''start'', JNum (Fin (7451 / 2)))],
         JObj [(''speaker'', JStr ''Bob''), (''text'', JStr ''x'')]]
        [''[01:02:05] late'', ''Bob: x'']
   \<and> transformTranscriptJsonToText \<lparr>host_toString = (\<lambda>q. []), host_divide = (\<lambda>a b. a / b)\<rparr>
        (JObj [(''segments'',
           JArr [JObj [(''text'', JStr ''late''), (''start'', JNum (Fin (7451 / 2)))],
                 JObj [(''speaker'', JStr ''Bob''), (''text'', JStr ''x'')]])])
     = Inr (''[01:02:05] late'' @ [CHR 0x0A] @ ''Bob: x'')
   \<and> map_of [(''text'', JStr ''late''), (''start'', JNum (Fin (7451 / 2)))] ''start''
     = Some (JNum (Fin (7451 / 2)))
   \<and> \<lfloor>7451 / 2 :: rat\<rfloor> < 360000
   \<and> formatTimestampSecondsToHHMMSS \<lparr>host_toString = (\<lambda>q. []), host_divide = (\<lambda>a b. a / b)\<rparr>
        (Some (Fin (7451 / 2))) = Some ''01:02:05''
   \<and> is_HHMMSS ''01:02:05''"
proof -
  let ?h = "\<lparr>host_toString = (\<lambda>q. []), host_divide = (\<lambda>a b. a / b)\<rparr>"
  let ?kvs = "[(''text'', JStr ''late''), (''start'', JNum (Fin (7451 / 2)))]"
  let ?segs = "[JObj ?kvs, JObj [(''speaker'', JStr ''Bob''), (''text'', JStr ''x'')]]"
  let ?lines = "[''[01:02:05] late'', ''Bob: x'']"
  note t = timestamp_below_100_hours [of ?h "JObj [(''segments'', JArr ?segs)]" ?segs ?lines JNull ?kvs "7451 / 2"]
  have fl: "\<lfloor>7451 / 2 :: rat\<rfloor> = 3725"
    by (simp add: floor_eq_iff)
  have b: "\<lfloor>7451 / 2 :: rat\<rfloor> < 360000"
    by (simp add: fl)
  have l: "map_of ?kvs ''start'' = Some (JNum (Fin (7451 / 2)))"
    by simp
  have s: "hhmmss_spec (7451 / 2) = ''01:02:05''"
    unfolding hhmmss_spec_def fl by (simp add: two_digits_def digit_def)
  from t l b have ts: "formatTimestampSecondsToHHMMSS ?h (Some (Fin (7451 / 2))) = Some ''01:02:05''"
    and shape: "is_HHMMSS ''01:02:05''"
    by (simp_all add: s)
  from t l b have l1: "segmentLine ?h (JObj ?kvs) = Inr ''[01:02:05] late''"
    by (simp add: s coerceToString_def formatLine_def safeJoin_def nonblank_def trim_def
        isWhiteSpace_def)
  have l2: "segmentLine ?h (JObj [(''speaker'', JStr ''Bob''), (''text'', JStr ''x'')]) = Inr ''Bob: x''"
    by (simp add: segmentLine_JObj numberOrUndefined_def formatTimestampSecondsToHHMMSS_def
        coerceToString_def formatLine_def safeJoin_def nonblank_def trim_def isWhiteSpace_def)
  have g: "getProp (JObj [(''segments'', JArr ?segs)]) ''segments'' = Inr (Some (JArr ?segs))"
    by simp
  have la: "list_all2 (\<lambda>seg line. segmentLine ?h seg = Inr line) ?segs ?lines"
    by (simp add: l1 l2)
  from t g la have "transformTranscriptJsonToText ?h (JObj [(''segments'', JArr ?segs)])
      = Inr (''[01:02:05] late'' @ [CHR 0x0A] @ ''Bob: x'')"
    by simp
  with g la l b ts shape show ?thesis by simp
qed

subsection \<open>Monologues\<close>

lemma join_nil_concat: "join [] xs = concat xs"
  by (induction xs) (simp_all add: join_Cons)

lemma filter_nonblank_values:
  "filter nonblank (somes (map (valueOf h) els)) =
     somes (map (valueOf h) (filter (\<lambda>el. \<not> blankValue h el) els))"
  by (induction els) (auto simp add: blankValue_def split: option.splits)

lemma monologueText_drops_blank:
  "monologueText h els = Inr (monologueText_spec h (filter (\<lambda>el. \<not> blankValue h el) els))"
  by (simp add: monologueText_total monologueText_spec_def join_nil_concat filter_nonblank_values)

lemma monologueLine_as_segment:
  assumes "map_of kvs ''elements'' = Some (JArr els)"
  shows "monologueLine h (JObj kvs) =
     segmentLine h (JObj ((''text'', JStr (monologueText_spec h (filter (\<lambda>el. \<not> blankValue h el) els))) # kvs))"
  using assms
  by (simp add: monologueLine_def segmentLine_JObj recordOrEmpty_def isRecord_def asArray_def
      monologueText_drops_blank coerceToString_def Let_def)

text \<open>
  C7, as stated, fails: an element whose value is a single space is dropped, so the
  monologue \<open>Hello\<close>, \<open> \<close>, \<open>world\<close> reads \<open>Helloworld\<close>, where the concatenation of
  all values is \<open>Hello world\<close>.
\<close>

theorem monologue_drops_space_value:
  "monologueText \<lparr>host_toString = (\<lambda>q. []), host_divide = (\<lambda>a b. a / b)\<rparr>
      [JObj [(''value'', JStr ''Hello'')], JObj [(''value'', JStr '' '')], JObj [(''value'', JStr ''world'')]]
     = Inr ''Helloworld''
   \<and> monologueText_spec \<lparr>host_toString = (\<lambda>q. []), host_divide = (\<lambda>a b. a / b)\<rparr>
      [JObj [(''value'', JStr ''Hello'')], JObj [(''value'', JStr '' '')], JObj [(''value'', JStr ''world'')]]
     = ''Hello world''
   \<and> transformTranscriptJsonToText \<lparr>host_toString = (\<lambda>q. []), host_divide = (\<lambda>a b. a / b)\<rparr>
      (JObj [(''monologues'', JArr [JObj [(''elements'',
         JArr [JObj [(''value'', JStr ''Hello'')], JObj [(''value'', JStr '' '')], JObj [(''value'', JStr ''world'')]])]])])
     = Inr ''Helloworld''"
  by (simp add: transformTranscriptJsonToText_def linesShape_def monologueLine_def recordOrEmpty_def
       asArray_def numberOrUndefined_def formatTimestampSecondsToHHMMSS_def formatLine_def safeJoin_def
       monologueText_def monologueText_spec_def elementValue_def valueOf_def isRecord_def
       coerceToString_def nonblank_def trim_def isWhiteSpace_def Let_def)

text \<open>
  C7, amended. The text of a monologue is the direct concatenation, with no separator, of
  the string and number values of its elements, leaving out the values that are empty or
  all white space; and the line of a monologue is the line the segments shape builds for
  the same speaker and start with that text.
\<close>

theorem monologue_text_and_line:
  "monologueText h els = Inr (monologueText_spec h (filter (\<lambda>el. \<not> blankValue h el) els))
   \<and> (map_of kvs ''elements'' = Some (JArr els) \<longrightarrow>
        monologueLine h (JObj kvs) =
          segmentLine h
            (JObj ((''text'', JStr (monologueText_spec h (filter (\<lambda>el. \<not> blankValue h el) els))) # kvs)))"
  using monologueText_drops_blank monologueLine_as_segment by blast

theorem monologue_text_and_line_witness:
  "map_of [(''speaker'', JNum (Fin 2)), (''start'', JNum (Fin 61)),
           (''elements'', JArr [JObj [(''value'', JStr ''Hi'')], JObj [(''value'', JStr '' '')],
                                JObj [(''value'', JNum (Fin 5))]])] ''elements''
     = Some (JArr [JObj [(''value'', JStr ''Hi'')], JObj [(''value'', JStr '' '')],
                   JObj [(''value'', JNum (Fin 5))]])
   \<and> monologueText \<lparr>host_toString = (\<lambda>q. []), host_divide = (\<lambda>a b. a / b)\<rparr>
        [JObj [(''value'', JStr ''Hi'')], JObj [(''value'', JStr '' '')], JObj [(''value'', JNum (Fin 5))]]
     = Inr ''Hi5''
   \<and> monologueText_spec \<lparr>host_toString = (\<lambda>q. []), host_divide = (\<lambda>a b. a / b)\<rparr>
        [JObj [(''value'', JStr ''Hi'')], JObj [(''value'', JNum (Fin 5))]]
     = ''Hi5''
   \<and> monologueLine \<lparr>host_toString = (\<lambda>q. []), host_divide = (\<lambda>a b. a / b)\<rparr>
       (JObj [(''speaker'', JNum (Fin 2)), (''start'', JNum (Fin 61)),
              (''elements'', JArr [JObj [(''value'', JStr ''Hi'')], JObj [(''value'', JStr '' '')],
                                   JObj [(''value'', JNum (Fin 5))]])])
     = segmentLine \<lparr>host_toString = (\<lambda>q. []), host_divide = (\<lambda>a b. a / b)\<rparr>
       (JObj [(''text'', JStr ''Hi5''), (''speaker'', JNum (Fin 2)), (''start'', JNum (Fin 61)),
              (''elements'', JArr [JObj [(''value'', JStr ''Hi'')], JObj [(''value'', JStr '' '')],
                                   JObj [(''value'', JNum (Fin 5))]])])"
proof -
  let ?h = "\<lparr>host_toString = (\<lambda>q. []), host_divide = (\<lambda>a b. a / b)\<rparr>"
  let ?els = "[JObj [(''value'', JStr ''Hi'')], JObj [(''value'', JStr '' '')], JObj [(''value'', JNum (Fin 5))]]"
  let ?kvs = "[(''speaker'', JNum (Fin 2)), (''start'', JNum (Fin 61)), (''elements'', JArr ?els)]"
  have five: "Number_toString ?h (Fin 5) = ''5''"
    using toString_nat [of 5 ?h] by (simp add: dec.simps digit_def)
  have kept: "filter (\<lambda>el. \<not> blankValue ?h el) ?els
      = [JObj [(''value'', JStr ''Hi'')], JObj [(''value'', JNum (Fin 5))]]"
    by (simp add: blankValue_def valueOf_def coerceToString_def five nonblank_def trim_def isWhiteSpace_def)
  have spec: "monologueText_spec ?h [JObj [(''value'', JStr ''Hi'')], JObj [(''value'', JNum (Fin 5))]] = ''Hi5''"
    by (simp add: monologueText_spec_def valueOf_def coerceToString_def five)
  have l: "map_of ?kvs ''elements'' = Some (JArr ?els)"
    by simp
  note t = monologue_text_and_line [of ?h ?els ?kvs, unfolded kept spec]
  from t l show ?thesis
    by (simp only: spec simp_thms)
qed

subsection \<open>The normalizer on values without a transcript shape\<close>

text \<open>
  C9. The normalizer throws on no JSON value: it returns a string on every one. On \<open>null\<close>,
  a boolean, a number, a string and an array the string is empty, and so it is on every
  value that has none of the keys \<open>segments\<close>, \<open>monologues\<close>, \<open>paragraphs\<close>,
  \<open>words\<close> and no string under \<open>text\<close>.
\<close>

theorem transform_total_and_empty_without_shape:
  "(\<exists>out. transformTranscriptJsonToText h j = Inr out)
   \<and> transformTranscriptJsonToText h JNull = Inr []
   \<and> transformTranscriptJsonToText h (JBool b) = Inr []
   \<and> transformTranscriptJsonToText h (JNum n) = Inr []
   \<and> transformTranscriptJsonToText h (JStr s) = Inr []
   \<and> transformTranscriptJsonToText h (JArr xs) = Inr []
   \<and> (getProp j ''segments'' = Inr None \<and> getProp j ''monologues'' = Inr None
        \<and> getProp j ''paragraphs'' = Inr None \<and> getProp j ''words'' = Inr None
        \<and> (\<forall>t. getProp j ''text'' \<noteq> Inr (Some (JStr t)))
      \<longrightarrow> transformTranscriptJsonToText h j = Inr [])"
  using transform_no_keys [of j h] transform_total [of h j]
  by (simp add: transform_not_record transform_array isRecord_def)

theorem transform_total_and_empty_without_shape_witness:
  "getProp (JObj [(''foo'', JNum (Fin 1)), (''text'', JNum (Fin 7))]) ''segments'' = Inr None
   \<and> getProp (JObj [(''foo'', JNum (Fin 1)), (''text'', JNum (Fin 7))]) ''monologues'' = Inr None
   \<and> getProp (JObj [(''foo'', JNum (Fin 1)), (''text'', JNum (Fin 7))]) ''paragraphs'' = Inr None
   \<and> getProp (JObj [(''foo'', JNum (Fin 1)), (''text'', JNum (Fin 7))]) ''words'' = Inr None
   \<and> (\<forall>t. getProp (JObj [(''foo'', JNum (Fin 1)), (''text'', JNum (Fin 7))]) ''text'' \<noteq> Inr (Some (JStr t)))
   \<and> transformTranscriptJsonToText \<lparr>host_toString = (\<lambda>q. []), host_divide = (\<lambda>a b. a / b)\<rparr>
        (JObj [(''foo'', JNum (Fin 1)), (''text'', JNum (Fin 7))]) = Inr []
   \<and> transformTranscriptJsonToText \<lparr>host_toString = (\<lambda>q. []), host_divide = (\<lambda>a b. a / b)\<rparr> JNull = Inr []"
  using transform_total_and_empty_without_shape
    [of "\<lparr>host_toString = (\<lambda>q. []), host_divide = (\<lambda>a b. a / b)\<rparr>"
        "JObj [(''foo'', JNum (Fin 1)), (''text'', JNum (Fin 7))]"]
  by simp

section \<open>Properties of the matcher\<close>

declare match_here.simps(4) [simp del]

lemma match_here_Star_Nil:
  "match_here ic (Star c # r) p [] = map_option (Cons []) (match_here ic r p [])"
  by (simp add: match_here.simps(4))

lemma match_here_Star_Cons:
  "match_here ic (Star c # r) p (x # xs) =
     (if mem ic c x then
        (case match_here ic (Star c # r) (Suc p) xs of
           Some (piece # pieces) \<Rightarrow> Some ((x # piece) # pieces)
         | _ \<Rightarrow> map_option (Cons []) (match_here ic r p (x # xs)))
      else map_option (Cons []) (match_here ic r p (x # xs)))"
  by (subst match_here.simps(4)) simp

lemma lit_match_take:
  "lit_match ic l s \<Longrightarrow> length l \<le> length s \<and> lit_match ic l (take (length l) s)"
  by (induction ic l s rule: lit_match.induct) (auto split: if_splits)

lemma lit_match_append: "lit_match ic l pc \<Longrightarrow> lit_match ic l (pc @ t)"
  by (induction ic l pc rule: lit_match.induct) (auto split: if_splits)

lemma fits_Group: "fits ic (Group it # r) p s pcs = fits ic (it # r) p s pcs"
  by (cases pcs) simp_all

lemma match_here_sound:
  "match_here ic items p s = Some pcs \<Longrightarrow> fits ic items p s pcs"
proof (induction ic items p s arbitrary: pcs rule: match_here.induct)
  case (1 ic p s)
  then show ?case by simp
next
  case (2 ic l r p s)
  then show ?case
    by (auto split: if_splits dest: lit_match_take)
next
  case (3 ic c r p s)
  then show ?case
    by (auto split: list.splits if_splits)
next
  case (4 ic c r p s)
  show ?case
  proof (cases s)
    case Nil
    with "4.prems" "4.IH"(1) show ?thesis by (auto simp: match_here_Star_Nil)
  next
    case (Cons x xs)
    show ?thesis
    proof (cases "mem ic c x")
      case False
      with "4.prems" "4.IH"(5) Cons show ?thesis by (auto simp: match_here_Star_Cons)
    next
      case True
      show ?thesis
      proof (cases "match_here ic (Star c # r) (Suc p) xs")
        case None
        with "4.prems" "4.IH"(3) Cons True show ?thesis by (auto simp: match_here_Star_Cons)
      next
        case (Some res)
        show ?thesis
        proof (cases res)
          case Nil
          with "4.prems" "4.IH"(4) \<open>s = x # xs\<close> True Some show ?thesis
            by (auto simp: match_here_Star_Cons)
        next
          case (Cons piece pieces)
          with "4.prems" \<open>s = x # xs\<close> True Some have pcs: "pcs = (x # piece) # pieces"
            by (simp add: match_here_Star_Cons)
          from "4.IH"(2)[OF \<open>s = x # xs\<close> True] Some Cons
          have "fits ic (Star c # r) (Suc p) xs (piece # pieces)" by simp
          with pcs \<open>s = x # xs\<close> True show ?thesis by simp
        qed
      qed
    qed
  qed
next
  case (5 ic c r p s)
  show ?case
  proof (cases s)
    case Nil
    with "5.prems" show ?thesis by simp
  next
    case (Cons x xs)
    with "5.prems" have m: "mem ic c x" by (auto split: if_splits)
    with "5.prems" Cons obtain piece pieces where
      rec: "match_here ic (Star c # r) (Suc p) xs = Some (piece # pieces)" and pcs: "pcs = (x # piece) # pieces"
      by (auto split: option.splits list.splits)
    from "5.IH"[OF Cons m rec] have "fits ic (Star c # r) (Suc p) xs (piece # pieces)" .
    with pcs Cons m show ?thesis by simp
  qed
next
  case (6 ic it r p s)
  then show ?case by (simp add: fits_Group)
next
  case (7 ic r p s)
  then show ?case by (auto split: if_splits)
next
  case (8 ic r p s)
  then show ?case by (auto split: if_splits)
qed

lemma match_here_complete:
  "fits ic items p s pcs \<Longrightarrow> match_here ic items p s \<noteq> None"
proof (induction ic items p s arbitrary: pcs rule: match_here.induct)
  case (1 ic p s)
  then show ?case by simp
next
  case (2 ic l r p s)
  then obtain pc pcs' where pcs: "pcs = pc # pcs'" by (cases pcs) auto
  with "2.prems" have tk: "take (length pc) s = pc" and len: "length pc = length l"
    and lm: "lit_match ic l pc" and rest: "fits ic r (p + length pc) (drop (length pc) s) pcs'"
    by auto
  have "s = pc @ drop (length pc) s" using tk by (metis append_take_drop_id)
  with lm have lms: "lit_match ic l s" by (metis lit_match_append)
  from "2.IH"[OF lms] rest len have "match_here ic r (p + length l) (drop (length l) s) \<noteq> None" by simp
  with lms show ?case by simp
next
  case (3 ic c r p s)
  then obtain pc pcs' where pcs: "pcs = pc # pcs'" by (cases pcs) auto
  with "3.prems" obtain x where pc: "pc = [x]" and m: "mem ic c x"
    by (auto split: list.splits)
  with "3.prems" pcs obtain xs where s: "s = x # xs" by (cases s) auto
  from "3.prems" pcs pc s have "fits ic r (Suc p) xs pcs'" by simp
  from "3.IH"[OF s m this] have "match_here ic r (Suc p) xs \<noteq> None" .
  with s m show ?case by simp
next
  case (4 ic c r p s)
  then obtain pc pcs' where pcs: "pcs = pc # pcs'" by (cases pcs) auto
  show ?case
  proof (cases s)
    case Nil
    with "4.prems" pcs have "pc = []" "fits ic r p [] pcs'" by auto
    with "4.IH"(1)[OF Nil] Nil show ?thesis by (auto simp: match_here_Star_Nil)
  next
    case (Cons x xs)
    show ?thesis
    proof (cases "mem ic c x")
      case False
      with "4.prems" pcs Cons have "pc = []" by (cases pc) auto
      with "4.prems" pcs have "fits ic r p s pcs'" by simp
      from "4.IH"(5)[OF Cons False this] Cons False show ?thesis by (simp add: match_here_Star_Cons)
    next
      case True
      show ?thesis
      proof (cases pc)
        case Nil
        with "4.prems" pcs have f: "fits ic r p s pcs'" by simp
        show ?thesis
        proof (cases "match_here ic (Star c # r) (Suc p) xs")
          case None
          from "4.IH"(3)[OF Cons True None f] Cons True None show ?thesis
            by (simp add: match_here_Star_Cons)
        next
          case (Some res)
          show ?thesis
          proof (cases res)
            case Nil
            with Some have "fits ic (Star c # r) (Suc p) xs []" by (metis match_here_sound)
            then show ?thesis by simp
          next
            case (Cons a list)
            with Some \<open>s = x # xs\<close> True show ?thesis by (simp add: match_here_Star_Cons)
          qed
        qed
      next
        case (Cons y pc')
        with "4.prems" pcs \<open>s = x # xs\<close> have "fits ic (Star c # r) (Suc p) xs (pc' # pcs')" by auto
        from "4.IH"(2)[OF \<open>s = x # xs\<close> True this] obtain res where
          rec: "match_here ic (Star c # r) (Suc p) xs = Some res" by auto
        then have "fits ic (Star c # r) (Suc p) xs res" by (rule match_here_sound)
        then obtain a list where "res = a # list" by (cases res) auto
        with rec \<open>s = x # xs\<close> True show ?thesis by (simp add: match_here_Star_Cons)
      qed
    qed
  qed
next
  case (5 ic c r p s)
  then obtain pc pcs' where pcs: "pcs = pc # pcs'" by (cases pcs) auto
  with "5.prems" obtain y pc' where pc: "pc = y # pc'" by (cases pc) auto
  with "5.prems" pcs obtain xs where s: "s = y # xs" by (cases s) auto
  from "5.prems" pcs pc have m: "mem ic c y" by simp
  from "5.prems" pcs pc s have "fits ic (Star c # r) (Suc p) xs (pc' # pcs')" by auto
  from "5.IH"[OF s m this] obtain res where
    rec: "match_here ic (Star c # r) (Suc p) xs = Some res" by auto
  then have "fits ic (Star c # r) (Suc p) xs res" by (rule match_here_sound)
  then obtain a list where "res = a # list" by (cases res) auto
  with rec s m show ?case by simp
next
  case (6 ic it r p s)
  then show ?case by (simp add: fits_Group)
next
  case (7 ic r p s)
  then obtain pc pcs' where pcs: "pcs = pc # pcs'" by (cases pcs) auto
  with 7 show ?case by auto
next
  case (8 ic r p s)
  then obtain pc pcs' where pcs: "pcs = pc # pcs'" by (cases pcs) auto
  with 8 show ?case by auto
qed

lemma search_here:
  "match_here ic items p s = Some pcs \<Longrightarrow> search ic items p s = Some (p, pcs)"
  by (cases s) simp_all

lemma search_skip:
  "(\<And>k. k < length pre \<Longrightarrow> match_here ic items (p + k) (drop k (pre @ rest)) = None)
   \<Longrightarrow> search ic items p (pre @ rest) = search ic items (p + length pre) rest"
proof (induction pre arbitrary: p)
  case Nil
  then show ?case by simp
next
  case (Cons x pre)
  from Cons.prems [of 0] have h: "match_here ic items p (x # pre @ rest) = None" by simp
  have "search ic items (Suc p) (pre @ rest) = search ic items (Suc p + length pre) rest"
  proof (rule Cons.IH)
    fix k assume "k < length pre"
    then have "Suc k < length (x # pre)" by simp
    from Cons.prems [OF this] show "match_here ic items (Suc p + k) (drop k (pre @ rest)) = None" by simp
  qed
  with h show ?case by simp
qed

lemma search_None_iff:
  "search ic items p s = None \<longleftrightarrow> (\<forall>k\<le>length s. match_here ic items (p + k) (drop k s) = None)"
proof (induction s arbitrary: p)
  case Nil
  then show ?case by auto
next
  case (Cons x xs)
  show ?case
  proof (cases "match_here ic items p (x # xs)")
    case (Some a)
    then show ?thesis by (auto intro: exI [of _ 0])
  next
    case None
    have "(\<forall>k\<le>length (x # xs). match_here ic items (p + k) (drop k (x # xs)) = None)
        \<longleftrightarrow> (\<forall>k\<le>length xs. match_here ic items (Suc p + k) (drop k xs) = None)"
    proof
      assume a: "\<forall>k\<le>length (x # xs). match_here ic items (p + k) (drop k (x # xs)) = None"
      show "\<forall>k\<le>length xs. match_here ic items (Suc p + k) (drop k xs) = None"
      proof (intro allI impI)
        fix k assume "k \<le> length xs"
        then have "Suc k \<le> length (x # xs)" by simp
        with a have "match_here ic items (p + Suc k) (drop (Suc k) (x # xs)) = None" by blast
        then show "match_here ic items (Suc p + k) (drop k xs) = None" by simp
      qed
    next
      assume a: "\<forall>k\<le>length xs. match_here ic items (Suc p + k) (drop k xs) = None"
      show "\<forall>k\<le>length (x # xs). match_here ic items (p + k) (drop k (x # xs)) = None"
      proof (intro allI impI)
        fix k assume k: "k \<le> length (x # xs)"
        show "match_here ic items (p + k) (drop k (x # xs)) = None"
        proof (cases k)
          case 0
          with None show ?thesis by simp
        next
          case (Suc j)
          with k a have "match_here ic items (Suc p + j) (drop j xs) = None" by simp
          with Suc show ?thesis by simp
        qed
      qed
    qed
    with None Cons.IH [of "Suc p"] show ?thesis by simp
  qed
qed

lemma search_result:
  "search ic items p s = Some (k, pcs) \<Longrightarrow>
     p \<le> k \<and> k \<le> p + length s \<and> match_here ic items k (drop (k - p) s) = Some pcs
     \<and> (\<forall>j<k - p. match_here ic items (p + j) (drop j s) = None)"
proof (induction s arbitrary: p)
  case Nil
  then show ?case by auto
next
  case (Cons x xs)
  show ?case
  proof (cases "match_here ic items p (x # xs)")
    case (Some a)
    with Cons.prems show ?thesis by auto
  next
    case None
    with Cons.prems have "search ic items (Suc p) xs = Some (k, pcs)" by simp
    from Cons.IH [OF this] have ih: "Suc p \<le> k" "k \<le> Suc p + length xs"
      "match_here ic items k (drop (k - Suc p) xs) = Some pcs"
      "\<forall>j<k - Suc p. match_here ic items (Suc p + j) (drop j xs) = None" by auto
    from ih(1) have kp: "k - p = Suc (k - Suc p)" by simp
    have "\<forall>j<k - p. match_here ic items (p + j) (drop j (x # xs)) = None"
    proof (intro allI impI)
      fix j assume j: "j < k - p"
      show "match_here ic items (p + j) (drop j (x # xs)) = None"
      proof (cases j)
        case 0
        with None show ?thesis by simp
      next
        case (Suc i)
        with j kp have "i < k - Suc p" by simp
        with ih(4) have "match_here ic items (Suc p + i) (drop i xs) = None" by blast
        with Suc show ?thesis by simp
      qed
    qed
    with ih kp show ?thesis by simp
  qed
qed

lemma Bol_later: "0 < p \<Longrightarrow> match_here ic (Bol # r) p s = None"
  by simp

lemma search_Bol: "search ic (Bol # r) 0 s = map_option (Pair 0) (match_here ic (Bol # r) 0 s)"
proof (cases "match_here ic (Bol # r) 0 s")
  case (Some a)
  then show ?thesis by (simp only: search_here [OF Some] option.map)
next
  case None
  have "search ic (Bol # r) 0 s = None"
    unfolding search_None_iff
  proof (intro allI impI)
    fix k assume "k \<le> length s"
    show "match_here ic (Bol # r) (0 + k) (drop k s) = None"
      using None by (cases k) simp_all
  qed
  with None show ?thesis by simp
qed

lemma lit_match_exact: "length pc = length l \<Longrightarrow> lit_match False l pc \<longleftrightarrow> pc = l"
  by (induction "False" l pc rule: lit_match.induct) (auto simp: eqc_def)

lemma mem_alnum:
  "mem False (Ranges [(CHR ''A'', CHR ''Z''), (CHR ''a'', CHR ''z''), (CHR ''0'', CHR ''9'')]) = isAlnum"
  by (rule ext) (auto simp add: in_ranges_def isAlnum_def Let_def)

lemma anchored_fits:
  "(\<exists>pcs. fits False [Bol, Lit L, Plus c, Eol] 0 s pcs) \<longleftrightarrow>
     (take (length L) s = L \<and> drop (length L) s \<noteq> [] \<and> list_all (mem False c) (drop (length L) s))"
proof
  assume "\<exists>pcs. fits False [Bol, Lit L, Plus c, Eol] 0 s pcs"
  then obtain pcs where f: "fits False [Bol, Lit L, Plus c, Eol] 0 s pcs" by blast
  then obtain a b g d where pcs: "pcs = [a, b, g, d]"
    by (auto elim!: fits.elims)
  from f pcs have a: "a = []" and b: "b = L"
    by (auto simp: lit_match_exact)
  from f pcs a b have tk: "take (length L) s = L"
    by simp
  from f pcs a b have g: "take (length g) (drop (length L) s) = g" "g \<noteq> []" "list_all (mem False c) g"
    and d: "drop (length g) (drop (length L) s) = []"
    by auto
  from g(1) d have "drop (length L) s = g" by (metis append_take_drop_id append_Nil2)
  with tk g show "take (length L) s = L \<and> drop (length L) s \<noteq> [] \<and> list_all (mem False c) (drop (length L) s)"
    by simp
next
  assume m: "take (length L) s = L \<and> drop (length L) s \<noteq> [] \<and> list_all (mem False c) (drop (length L) s)"
  then have "fits False [Bol, Lit L, Plus c, Eol] 0 s [[], L, drop (length L) s, []]"
    by (simp add: lit_match_exact)
  then show "\<exists>pcs. fits False [Bol, Lit L, Plus c, Eol] 0 s pcs" by blast
qed

lemma share_prefix_length: "length ''https://share.descript.com/view/'' = 32"
  by simp

lemma DESCRIPT_RE_fits:
  "(\<exists>pcs. fits False (rx_items DESCRIPT_RE) 0 s pcs) \<longleftrightarrow> matches_share_pattern s"
proof -
  have "rx_items DESCRIPT_RE = [Bol, Lit ''https://share.descript.com/view/'',
      Plus (Ranges [(CHR ''A'', CHR ''Z''), (CHR ''a'', CHR ''z''), (CHR ''0'', CHR ''9'')]), Eol]"
    by (simp add: DESCRIPT_RE_def)
  then show ?thesis
    unfolding matches_share_pattern_def
    by (simp only: anchored_fits share_prefix_length mem_alnum)
qed

lemma DESCRIPT_RE_test: "rx_test DESCRIPT_RE s = matches_share_pattern s"
proof -
  have items: "rx_items DESCRIPT_RE = Bol # tl (rx_items DESCRIPT_RE)" and ic: "ignoreCase DESCRIPT_RE = False"
    by (simp_all add: DESCRIPT_RE_def)
  have "rx_test DESCRIPT_RE s \<longleftrightarrow> match_here False (rx_items DESCRIPT_RE) 0 s \<noteq> None"
    unfolding rx_test_def rx_exec_def ic by (subst (1 2) items) (simp add: search_Bol)
  also have "\<dots> \<longleftrightarrow> (\<exists>pcs. fits False (rx_items DESCRIPT_RE) 0 s pcs)"
    using match_here_sound match_here_complete by blast
  finally show ?thesis by (simp add: DESCRIPT_RE_fits)
qed

section \<open>Properties of the handlers of variant B\<close>

lemma dropWhile_id: "xs = [] \<or> \<not> P (hd xs) \<Longrightarrow> dropWhile P xs = xs"
  by (cases xs) auto

lemma dropWhile_all_append: "list_all P l \<Longrightarrow> dropWhile P (l @ ys) = dropWhile P ys"
  by (induction l) simp_all

lemma trim_surround:
  assumes "list_all isWhiteSpace l" "list_all isWhiteSpace r" "s \<noteq> []"
    "\<not> isWhiteSpace (hd s)" "\<not> isWhiteSpace (last s)"
  shows "trim (l @ s @ r) = s"
proof -
  have a: "dropWhile isWhiteSpace (l @ s @ r) = s @ r"
    using assms(1,3,4) by (simp add: dropWhile_all_append dropWhile_id)
  have "list_all isWhiteSpace (rev r)" using assms(2) by (simp add: list_all_iff)
  then have b: "dropWhile isWhiteSpace (rev r @ rev s) = rev s"
    using assms(3,5) by (simp add: dropWhile_all_append dropWhile_id hd_rev)
  show ?thesis by (simp add: trim_def a b)
qed


lemma trim_fixed: "s = [] \<or> (\<not> isWhiteSpace (hd s) \<and> \<not> isWhiteSpace (last s)) \<Longrightarrow> trim s = s"
proof (cases "s = []")
  case True
  then show ?thesis by (simp add: trim_def)
next
  case False
  assume "s = [] \<or> (\<not> isWhiteSpace (hd s) \<and> \<not> isWhiteSpace (last s))"
  with False trim_surround [of "[]" "[]" s] show ?thesis by simp
qed


lemma alnum_not_space: "isAlnum c \<Longrightarrow> \<not> isWhiteSpace c"
  by (auto simp: isAlnum_def isWhiteSpace_def Let_def)

lemma share_url_ends:
  assumes "matches_share_pattern u"
  shows "u \<noteq> []" "\<not> isWhiteSpace (hd u)" "\<not> isWhiteSpace (last u)"
proof -
  let ?p = "''https://share.descript.com/view/''"
  from assms have u: "u = ?p @ drop 32 u" and ne: "drop 32 u \<noteq> []" and al: "list_all isAlnum (drop 32 u)"
    unfolding matches_share_pattern_def by (metis append_take_drop_id)+
  from u show "u \<noteq> []" by auto
  from u have "hd u = CHR ''h''" by (metis hd_append2 list.sel(1) list.distinct(1))
  then show "\<not> isWhiteSpace (hd u)" by (simp add: isWhiteSpace_def)
  from u ne have "last u = last (drop 32 u)" by (metis last_appendR)
  moreover from last_in_set [OF ne] al have "isAlnum (last (drop 32 u))"
    unfolding list_all_iff by blast
  ultimately show "\<not> isWhiteSpace (last u)" by (simp add: alnum_not_space)
qed



lemma GET_B_valid:
  "matches_share_pattern (trim s) \<Longrightarrow>
   GET_B net (Some s) e = respondWithTranscript net (trim s) (e = Some ''true'')"
  using share_url_ends(1) [of "trim s"] by (simp add: GET_B_def DESCRIPT_RE_test)

lemma GET_B_invalid:
  "\<not> matches_share_pattern (trim s) \<Longrightarrow> GET_B net (Some s) e = (bad ''invalid descript share url'' 400, [])"
  by (simp add: GET_B_def DESCRIPT_RE_test)

lemma GET_B_absent: "GET_B net None e = (bad ''invalid descript share url'' 400, [])"
  by (simp add: GET_B_def)

lemma POST_B_string:
  "map_of kvs ''url'' = Some (JStr s) \<Longrightarrow>
   POST_B h net (Some (JObj kvs)) =
     (if s = [] \<or> \<not> rx_test DESCRIPT_RE s then (bad ''invalid descript share url'' 400, [])
      else respondWithTranscript net s (truthy (map_of kvs ''expand'')))"
  by (simp add: POST_B_def getProp_def truthy_def)

lemma POST_B_invalid:
  "map_of kvs ''url'' = Some (JStr s) \<Longrightarrow> \<not> matches_share_pattern s \<Longrightarrow>
   POST_B h net (Some (JObj kvs)) = (bad ''invalid descript share url'' 400, [])"
  by (simp add: POST_B_string DESCRIPT_RE_test)



lemma GET_B_padded:
  assumes "matches_share_pattern u" "list_all isWhiteSpace l" "list_all isWhiteSpace r"
  shows "GET_B net (Some (l @ u @ r)) e = respondWithTranscript net u (e = Some ''true'')"
proof -
  have "trim (l @ u @ r) = u"
    using assms share_url_ends [OF assms(1)] by (simp add: trim_surround)
  with assms(1) GET_B_valid [of "l @ u @ r" net e] show ?thesis by simp
qed

subsection \<open>Validation of the share URL\<close>

text \<open>
  C8, amended. The pattern accepts exactly the strings made of the prefix
  \<open>https://share.descript.com/view/\<close> and one or more letters or digits after it. \<open>GET\<close>
  answers 400 and makes no network call when the parameter \<open>u\<close> is absent or when the
  trimmed parameter does not match the pattern; \<open>POST\<close> answers 400 and makes no network
  call when \<open>url\<close> is a string that does not match the pattern.
\<close>

theorem share_url_validation:
  "rx_test DESCRIPT_RE s = matches_share_pattern s
   \<and> (\<not> matches_share_pattern (trim s) \<longrightarrow>
        GET_B net (Some s) e = (bad ''invalid descript share url'' 400, []))
   \<and> GET_B net None e = (bad ''invalid descript share url'' 400, [])
   \<and> (map_of kvs ''url'' = Some (JStr s) \<and> \<not> matches_share_pattern s \<longrightarrow>
        POST_B h net (Some (JObj kvs)) = (bad ''invalid descript share url'' 400, []))"
  using DESCRIPT_RE_test [of s] GET_B_invalid [of s net e] GET_B_absent [of net e]
    POST_B_invalid [of kvs s h net]
  by blast


lemma example_share_url: "matches_share_pattern ''https://share.descript.com/view/abc''"
  by (simp add: matches_share_pattern_def isAlnum_def)

lemma example_page_B: "group1 (rx_exec META_RE examplePage) = Some ''https://t/1.json''"
  by code_simp

text \<open>
  C8, as stated for every input string, fails for \<open>GET\<close>: the parameter
  \<open> https://share.descript.com/view/abc\<close>, with a space in front, does not match the
  pattern, and \<open>GET\<close> fetches the share page and answers 200.
\<close>

theorem get_accepts_padded_url:
  "\<not> matches_share_pattern '' https://share.descript.com/view/abc''
   \<and> GET_B (exampleNetwork 200 200 (Threw [])) (Some '' https://share.descript.com/view/abc'') None
     = (Respond 200 (OkBody ''https://t/1.json'' None), [HttpGet ''https://share.descript.com/view/abc''])"
proof -
  have 1: "\<not> matches_share_pattern '' https://share.descript.com/view/abc''"
    by (simp add: matches_share_pattern_def)
  have "GET_B (exampleNetwork 200 200 (Threw [])) (Some ('' '' @ ''https://share.descript.com/view/abc'' @ [])) None
      = respondWithTranscript (exampleNetwork 200 200 (Threw [])) ''https://share.descript.com/view/abc''
          (None = Some ''true'')"
    by (rule GET_B_padded [OF example_share_url]) (simp_all add: isWhiteSpace_def)
  then have 2: "GET_B (exampleNetwork 200 200 (Threw [])) (Some '' https://share.descript.com/view/abc'') None
      = (Respond 200 (OkBody ''https://t/1.json'' None), [HttpGet ''https://share.descript.com/view/abc''])"
    by (simp add: respondWithTranscript_def getTranscriptUrl_def exampleNetwork_def example_page_B)
  from 1 2 show ?thesis by blast
qed

theorem share_url_validation_witness:
  "\<not> matches_share_pattern (trim ''https://evil.example.com/view/abc'')
   \<and> rx_test DESCRIPT_RE ''https://evil.example.com/view/abc'' = False
   \<and> GET_B (\<lambda>trace c. Threw ''no network'') (Some ''https://evil.example.com/view/abc'') None
       = (bad ''invalid descript share url'' 400, [])
   \<and> map_of [(''url'', JStr ''https://share.descript.com/edit/abc'')] ''url''
       = Some (JStr ''https://share.descript.com/edit/abc'')
   \<and> \<not> matches_share_pattern ''https://share.descript.com/edit/abc''
   \<and> POST_B exampleHost (\<lambda>trace c. Threw ''no network'')
         (Some (JObj [(''url'', JStr ''https://share.descript.com/edit/abc'')]))
       = (bad ''invalid descript share url'' 400, [])"
proof -
  have t: "trim ''https://evil.example.com/view/abc'' = ''https://evil.example.com/view/abc''"
    by (rule trim_fixed) (simp add: isWhiteSpace_def)
  have 1: "\<not> matches_share_pattern ''https://evil.example.com/view/abc''"
    by (simp add: matches_share_pattern_def)
  have 2: "\<not> matches_share_pattern ''https://share.descript.com/edit/abc''"
    by (simp add: matches_share_pattern_def)
  note a = share_url_validation [of "''https://evil.example.com/view/abc''" "\<lambda>trace c. Threw ''no network''" None
      "[(''url'', JStr ''https://share.descript.com/edit/abc'')]"
      "exampleHost"]
  note b = share_url_validation [of "''https://share.descript.com/edit/abc''" "\<lambda>trace c. Threw ''no network''" None
      "[(''url'', JStr ''https://share.descript.com/edit/abc'')]"
      "exampleHost"]
  from a b 1 2 show ?thesis by (simp add: t)
qed


section \<open>Properties of the handler of variant A\<close>

lemma fits_length: "fits ic items p s pcs \<Longrightarrow> length pcs = length items"
  by (induction ic items p s pcs rule: fits.induct) auto

lemma contentRegex_group:
  assumes "match_here True (rx_items contentRegex) p s = Some pcs"
  shows "\<exists>g. groups (rx_items contentRegex) pcs = [g] \<and> g \<noteq> []"
proof -
  from assms have f: "fits True (rx_items contentRegex) p s pcs" by (rule match_here_sound)
  then obtain a b g c where pcs: "pcs = [a, b, g, c]"
    by (auto simp: contentRegex_def elim!: fits.elims)
  with f have "g \<noteq> []" by (simp add: contentRegex_def)
  with pcs show ?thesis by (simp add: groups_def contentRegex_def)
qed

lemma META_RE_group:
  assumes "match_here True (rx_items META_RE) p s = Some pcs"
  shows "\<exists>g. groups (rx_items META_RE) pcs = [g] \<and> g \<noteq> []"
proof -
  from assms have f: "fits True (rx_items META_RE) p s pcs" by (rule match_here_sound)
  then obtain a b c d e g q where pcs: "pcs = [a, b, c, d, e, g, q]"
    by (auto simp: META_RE_def elim!: fits.elims)
  with f have "g \<noteq> []" by (simp add: META_RE_def)
  with pcs show ?thesis by (simp add: groups_def META_RE_def)
qed

lemma search_match:
  "search ic items p s = Some (k, pcs) \<Longrightarrow> \<exists>q t. match_here ic items q t = Some pcs"
  using search_result by blast

lemma extract_nonempty: "extractTranscriptJsonUrlFromHtml html = Some v \<Longrightarrow> v \<noteq> []"
proof -
  assume a: "extractTranscriptJsonUrlFromHtml html = Some v"
  then obtain tagMatch where "group1 (rx_exec contentRegex (fst tagMatch)) = Some v"
    by (auto simp: extractTranscriptJsonUrlFromHtml_def split: option.splits)
  then obtain k pcs where s: "search True (rx_items contentRegex) 0 (fst tagMatch) = Some (k, pcs)"
    and g: "(case groups (rx_items contentRegex) pcs of g # _ \<Rightarrow> Some g | [] \<Rightarrow> None) = Some v"
    by (auto simp: group1_def rx_exec_def contentRegex_def split: option.splits)
  from search_match [OF s] contentRegex_group obtain g' where
    "groups (rx_items contentRegex) pcs = [g']" "g' \<noteq> []" by blast
  with g show ?thesis by simp
qed

lemma META_RE_nonempty: "group1 (rx_exec META_RE html) = Some v \<Longrightarrow> v \<noteq> []"
proof -
  assume "group1 (rx_exec META_RE html) = Some v"
  then obtain k pcs where s: "search True (rx_items META_RE) 0 html = Some (k, pcs)"
    and g: "(case groups (rx_items META_RE) pcs of g # _ \<Rightarrow> Some g | [] \<Rightarrow> None) = Some v"
    by (auto simp: group1_def rx_exec_def META_RE_def split: option.splits)
  from search_match [OF s] META_RE_group obtain g' where
    "groups (rx_items META_RE) pcs = [g']" "g' \<noteq> []" by blast
  with g show ?thesis by simp
qed

lemma POST_A_valid:
  "map_of kvs ''descript_url'' = Some (JStr d) \<Longrightarrow> d \<noteq> [] \<Longrightarrow>
   map_of kvs ''make_webhook_url'' = Some (JStr w) \<Longrightarrow> w \<noteq> [] \<Longrightarrow>
   POST_A h te net t0 t1 (Some (JObj kvs)) = extractAndForward h te net t0 t1 d w"
  by (simp add: POST_A_def optionalProp_def getProp_def nonEmptyString_def)

lemma A_share_not_ok:
  "net [] (HttpGet d) = Responded share \<Longrightarrow> \<not> ok share \<Longrightarrow>
   extractAndForward h te net t0 t1 d w =
     (Respond 502 (failure (noMetadata\<lparr>source_url := Some d\<rparr>)
              (''Failed to fetch Descript page: HTTP '' @ dec (resp_status share))), [HttpGet d])"
  by (simp add: extractAndForward_def)

lemma A_transcript_not_ok:
  assumes "net [] (HttpGet d) = Responded share" "ok share"
    "extractTranscriptJsonUrlFromHtml (resp_text share) = Some turl"
    "net [HttpGet d] (HttpGet turl) = Responded tres" "\<not> ok tres"
  shows "extractAndForward h te net t0 t1 d w =
     (Respond 502 (failure (noMetadata\<lparr>source_url := Some d, transcript_json_url := Some turl\<rparr>)
              (''Failed to fetch transcript JSON: HTTP '' @ dec (resp_status tres))),
      [HttpGet d, HttpGet turl])"
  using assms extract_nonempty [OF assms(3)] by (simp add: extractAndForward_def Let_def)

lemma A_extracted:
  assumes "net [] (HttpGet d) = Responded share" "ok share"
    "extractTranscriptJsonUrlFromHtml (resp_text share) = Some turl"
    "net [HttpGet d] (HttpGet turl) = Responded tres" "ok tres"
    "resp_json tres = Some doc" "transformTranscriptJsonToText h doc = Inr text" "nonblank text"
  shows "extractAndForward h te net t0 t1 d w =
     deliver net [HttpGet d, HttpGet turl] w
       \<lparr>success = True, transcript = Some text,
        metadata = \<lparr>source_url = Some d, transcript_json_url = Some turl, processing_time = Some (t1 - t0)\<rparr>,
        error = None\<rparr>"
  using assms extract_nonempty [OF assms(3)] by (simp add: extractAndForward_def Let_def nonblank_def)

lemma deliver_ok:
  "net tr (HttpPost w out) = Responded r \<Longrightarrow> ok r \<Longrightarrow>
   deliver net tr w out = (Respond 200 out, tr @ [HttpPost w out])"
  by (simp add: deliver_def Let_def)

lemma deliver_status:
  "net tr (HttpPost w out) = Responded r \<Longrightarrow> \<not> ok r \<Longrightarrow> 0 < resp_status r \<Longrightarrow>
   deliver net tr w out =
     (Respond 200 (out\<lparr>success := False, error := Some (''Make webhook returned HTTP '' @ dec (resp_status r))\<rparr>),
      tr @ [HttpPost w out])"
  by (simp add: deliver_def Let_def)

lemma deliver_threw:
  "net tr (HttpPost w out) = Threw msg \<Longrightarrow>
   deliver net tr w out =
     (Respond 200 (out\<lparr>success := False, error := Some ''Failed to deliver results to Make webhook''\<rparr>),
      tr @ [HttpPost w out])"
  by (simp add: deliver_def Let_def)

lemma deliver_status_0:
  "net tr (HttpPost w out) = Responded r \<Longrightarrow> resp_status r = 0 \<Longrightarrow>
   deliver net tr w out =
     (Respond 200 (out\<lparr>success := False, error := Some ''Failed to deliver results to Make webhook''\<rparr>),
      tr @ [HttpPost w out])"
  by (simp add: deliver_def Let_def ok_def)

lemma B_transcript_not_ok:
  assumes "net [] (HttpGet u) = Responded share" "group1 (rx_exec META_RE (resp_text share)) = Some turl"
    "net [HttpGet u] (HttpGet turl) = Responded tRes" "\<not> ok tRes"
  shows "respondWithTranscript net u True =
     (bad (''failed to fetch transcript json ('' @ dec (resp_status tRes) @ '')'') 502,
      [HttpGet u, HttpGet turl])"
  using assms META_RE_nonempty [OF assms(2)]
  by (simp add: respondWithTranscript_def getTranscriptUrl_def)

lemma B_share_status_ignored:
  assumes "net [] (HttpGet u) = Responded share"
  shows "respondWithTranscript
           (\<lambda>trace c. if trace = [] \<and> c = HttpGet u then Responded (share\<lparr>resp_status := st\<rparr>) else net trace c)
           u x
         = respondWithTranscript net u x"
  using assms
  by (simp add: respondWithTranscript_def getTranscriptUrl_def split: option.splits)

lemma GET_B_valid':
  "matches_share_pattern u \<Longrightarrow> GET_B net (Some u) e = respondWithTranscript net u (e = Some ''true'')"
  using GET_B_padded [of u "[]" "[]" net e] by simp

lemma POST_B_valid:
  "map_of kvs ''url'' = Some (JStr u) \<Longrightarrow> matches_share_pattern u \<Longrightarrow>
   POST_B h net (Some (JObj kvs)) = respondWithTranscript net u (truthy (map_of kvs ''expand''))"
  using share_url_ends(1) [of u] by (simp add: POST_B_string DESCRIPT_RE_test)

subsection \<open>Upstream statuses\<close>

text \<open>
  C4, amended. In variant A, on a valid request, a non-2xx status of the share-page fetch
  is answered with 502 and a message that ends in that status, with no further call; and a
  non-2xx status of the transcript-document fetch is answered with 502 and a message that
  ends in that status. In variant B, on a valid share URL, both handlers go on to the
  statements they share; there a non-2xx status of the transcript-document fetch is
  answered with 502 and a message that carries that status, while the status of the
  share-page fetch changes nothing in the answer.
\<close>

theorem upstream_status_502:
  "(map_of kvs ''descript_url'' = Some (JStr d) \<and> d \<noteq> []
      \<and> map_of kvs ''make_webhook_url'' = Some (JStr w) \<and> w \<noteq> []
      \<and> net [] (HttpGet d) = Responded share \<and> \<not> ok share
    \<longrightarrow> POST_A h te net t0 t1 (Some (JObj kvs)) =
          (Respond 502 (failure (noMetadata\<lparr>source_url := Some d\<rparr>)
                          (''Failed to fetch Descript page: HTTP '' @ dec (resp_status share))),
           [HttpGet d]))
   \<and> (map_of kvs ''descript_url'' = Some (JStr d) \<and> d \<noteq> []
      \<and> map_of kvs ''make_webhook_url'' = Some (JStr w) \<and> w \<noteq> []
      \<and> net [] (HttpGet d) = Responded share \<and> ok share
      \<and> extractTranscriptJsonUrlFromHtml (resp_text share) = Some turl
      \<and> net [HttpGet d] (HttpGet turl) = Responded tres \<and> \<not> ok tres
    \<longrightarrow> POST_A h te net t0 t1 (Some (JObj kvs)) =
          (Respond 502 (failure (noMetadata\<lparr>source_url := Some d, transcript_json_url := Some turl\<rparr>)
                          (''Failed to fetch transcript JSON: HTTP '' @ dec (resp_status tres))),
           [HttpGet d, HttpGet turl]))
   \<and> (matches_share_pattern u
    \<longrightarrow> GET_B net (Some u) e = respondWithTranscript net u (e = Some ''true'')
       \<and> (map_of kvs ''url'' = Some (JStr u)
          \<longrightarrow> POST_B h net (Some (JObj kvs)) = respondWithTranscript net u (truthy (map_of kvs ''expand''))))
   \<and> (net [] (HttpGet u) = Responded share
      \<and> group1 (rx_exec META_RE (resp_text share)) = Some turl
      \<and> net [HttpGet u] (HttpGet turl) = Responded tres \<and> \<not> ok tres
    \<longrightarrow> respondWithTranscript net u True =
          (bad (''failed to fetch transcript json ('' @ dec (resp_status tres) @ '')'') 502,
           [HttpGet u, HttpGet turl]))
   \<and> (net [] (HttpGet u) = Responded share
    \<longrightarrow> respondWithTranscript
          (\<lambda>trace c. if trace = [] \<and> c = HttpGet u then Responded (share\<lparr>resp_status := st\<rparr>)
                      else net trace c) u x
        = respondWithTranscript net u x)"
proof (intro conjI impI; (elim conjE)?)
  assume a: "map_of kvs ''descript_url'' = Some (JStr d)" "d \<noteq> []"
    "map_of kvs ''make_webhook_url'' = Some (JStr w)" "w \<noteq> []"
    and n: "net [] (HttpGet d) = Responded share" "\<not> ok share"
  show "POST_A h te net t0 t1 (Some (JObj kvs)) =
          (Respond 502 (failure (noMetadata\<lparr>source_url := Some d\<rparr>)
                          (''Failed to fetch Descript page: HTTP '' @ dec (resp_status share))),
           [HttpGet d])"
    using a n by (simp add: POST_A_valid A_share_not_ok)
next
  assume a: "map_of kvs ''descript_url'' = Some (JStr d)" "d \<noteq> []"
    "map_of kvs ''make_webhook_url'' = Some (JStr w)" "w \<noteq> []"
    and n: "net [] (HttpGet d) = Responded share" "ok share"
      "extractTranscriptJsonUrlFromHtml (resp_text share) = Some turl"
      "net [HttpGet d] (HttpGet turl) = Responded tres" "\<not> ok tres"
  show "POST_A h te net t0 t1 (Some (JObj kvs)) =
          (Respond 502 (failure (noMetadata\<lparr>source_url := Some d, transcript_json_url := Some turl\<rparr>)
                          (''Failed to fetch transcript JSON: HTTP '' @ dec (resp_status tres))),
           [HttpGet d, HttpGet turl])"
    using a n by (simp add: POST_A_valid A_transcript_not_ok)
next
  assume "matches_share_pattern u"
  then show "GET_B net (Some u) e = respondWithTranscript net u (e = Some ''true'')"
    by (rule GET_B_valid')
next
  assume "matches_share_pattern u" "map_of kvs ''url'' = Some (JStr u)"
  then show "POST_B h net (Some (JObj kvs)) = respondWithTranscript net u (truthy (map_of kvs ''expand''))"
    by (simp only: POST_B_valid)
next
  assume "net [] (HttpGet u) = Responded share" "group1 (rx_exec META_RE (resp_text share)) = Some turl"
    "net [HttpGet u] (HttpGet turl) = Responded tres" "\<not> ok tres"
  then show "respondWithTranscript net u True =
          (bad (''failed to fetch transcript json ('' @ dec (resp_status tres) @ '')'') 502,
           [HttpGet u, HttpGet turl])"
    by (rule B_transcript_not_ok)
next
  assume "net [] (HttpGet u) = Responded share"
  then show "respondWithTranscript
          (\<lambda>trace c. if trace = [] \<and> c = HttpGet u then Responded (share\<lparr>resp_status := st\<rparr>)
                      else net trace c) u x
        = respondWithTranscript net u x"
    by (rule B_share_status_ignored)
qed

lemma example_page_A: "extractTranscriptJsonUrlFromHtml examplePage = Some ''https://t/1.json''"
  by code_simp

lemma example_document: "transformTranscriptJsonToText h exampleDocument = Inr ''Hi''"
  by (simp add: exampleDocument_def transformTranscriptJsonToText_def linesShape_def wordsShape_def
      textShape_def isRecord_def asArray_def getProp_def orElse_def andThen_def)

lemma dec_503: "dec 503 = ''503''"
  by (simp add: dec.simps digit_def)

lemma dec_404: "dec 404 = ''404''"
  by (simp add: dec.simps digit_def)

lemma dec_500: "dec 500 = ''500''"
  by (simp add: dec.simps digit_def)

text \<open>
  C4, as stated for both variants, fails for the share-page fetch of variant B: when the
  share page is answered with the status 500, \<open>GET\<close> goes on to the extraction and answers
  200, with or without the transcript document.
\<close>

theorem share_page_status_ignored_by_B:
  "\<not> ok \<lparr>resp_status = 500, resp_text = examplePage, resp_json = Some exampleDocument\<rparr>
   \<and> exampleNetwork 500 200 (Threw []) [] (HttpGet ''https://share.descript.com/view/abc'')
       = Responded \<lparr>resp_status = 500, resp_text = examplePage, resp_json = Some exampleDocument\<rparr>
   \<and> GET_B (exampleNetwork 500 200 (Threw [])) (Some ''https://share.descript.com/view/abc'') None
       = (Respond 200 (OkBody ''https://t/1.json'' None), [HttpGet ''https://share.descript.com/view/abc''])
   \<and> GET_B (exampleNetwork 500 200 (Threw [])) (Some ''https://share.descript.com/view/abc'') (Some ''true'')
       = (Respond 200 (OkBody ''https://t/1.json'' (Some exampleDocument)),
          [HttpGet ''https://share.descript.com/view/abc'', HttpGet ''https://t/1.json''])"
proof -
  have g: "GET_B (exampleNetwork 500 200 (Threw [])) (Some ''https://share.descript.com/view/abc'') e
      = respondWithTranscript (exampleNetwork 500 200 (Threw [])) ''https://share.descript.com/view/abc''
          (e = Some ''true'')" for e
    by (rule GET_B_valid' [OF example_share_url])
  show ?thesis
    by (simp add: g respondWithTranscript_def getTranscriptUrl_def exampleNetwork_def example_page_B ok_def)
qed

theorem upstream_status_502_witness:
  "map_of exampleRequest ''descript_url'' = Some (JStr ''https://d'')
   \<and> map_of exampleRequest ''make_webhook_url'' = Some (JStr ''https://w'')
   \<and> \<not> ok \<lparr>resp_status = 503, resp_text = examplePage, resp_json = Some exampleDocument\<rparr>
   \<and> POST_A exampleHost [] (exampleNetwork 503 200 (Threw [])) 0 7 (Some (JObj exampleRequest))
       = (Respond 502 (failure (noMetadata\<lparr>source_url := Some ''https://d''\<rparr>)
                         ''Failed to fetch Descript page: HTTP 503''),
          [HttpGet ''https://d''])
   \<and> extractTranscriptJsonUrlFromHtml examplePage = Some ''https://t/1.json''
   \<and> POST_A exampleHost [] (exampleNetwork 200 404 (Threw [])) 0 7 (Some (JObj exampleRequest))
       = (Respond 502 (failure (noMetadata\<lparr>source_url := Some ''https://d'',
                                             transcript_json_url := Some ''https://t/1.json''\<rparr>)
                         ''Failed to fetch transcript JSON: HTTP 404''),
          [HttpGet ''https://d'', HttpGet ''https://t/1.json''])
   \<and> matches_share_pattern ''https://share.descript.com/view/abc''
   \<and> GET_B (exampleNetwork 200 500 (Threw [])) (Some ''https://share.descript.com/view/abc'') (Some ''true'')
       = (bad ''failed to fetch transcript json (500)'' 502,
          [HttpGet ''https://share.descript.com/view/abc'', HttpGet ''https://t/1.json''])"
proof -
  let ?share = "\<lambda>st. \<lparr>resp_status = st, resp_text = examplePage, resp_json = Some exampleDocument\<rparr>"
  have r: "map_of exampleRequest ''descript_url'' = Some (JStr ''https://d'')"
    "map_of exampleRequest ''make_webhook_url'' = Some (JStr ''https://w'')"
    by (simp_all add: exampleRequest_def)
  have n1: "exampleNetwork 503 200 (Threw []) [] (HttpGet ''https://d'') = Responded (?share 503)"
    "\<not> ok (?share 503)"
    by (simp_all add: exampleNetwork_def ok_def)
  have n2: "exampleNetwork 200 404 (Threw []) [] (HttpGet ''https://d'') = Responded (?share 200)"
    "ok (?share 200)"
    "exampleNetwork 200 404 (Threw []) [HttpGet ''https://d''] (HttpGet ''https://t/1.json'') = Responded (?share 404)"
    "\<not> ok (?share 404)"
    by (simp_all add: exampleNetwork_def ok_def)
  have n3: "exampleNetwork 200 500 (Threw []) [] (HttpGet ''https://share.descript.com/view/abc'') = Responded (?share 200)"
    "exampleNetwork 200 500 (Threw []) [HttpGet ''https://share.descript.com/view/abc''] (HttpGet ''https://t/1.json'')
       = Responded (?share 500)"
    "\<not> ok (?share 500)"
    by (simp_all add: exampleNetwork_def ok_def)
  note a = upstream_status_502 [of exampleRequest "''https://d''" "''https://w''"
      "exampleNetwork 503 200 (Threw [])" "?share 503" exampleHost "[]" 0 7]
  note b = upstream_status_502 [of exampleRequest "''https://d''" "''https://w''"
      "exampleNetwork 200 404 (Threw [])" "?share 200" exampleHost "[]" 0 7 "''https://t/1.json''" "?share 404"]
  note c = upstream_status_502 [of exampleRequest "''https://d''" "''https://w''"
      "exampleNetwork 200 500 (Threw [])" "?share 200" exampleHost "[]" 0 7 "''https://t/1.json''" "?share 500"
      "''https://share.descript.com/view/abc''" "Some ''true''"]
  from a r n1 have 1: "POST_A exampleHost [] (exampleNetwork 503 200 (Threw [])) 0 7 (Some (JObj exampleRequest))
       = (Respond 502 (failure (noMetadata\<lparr>source_url := Some ''https://d''\<rparr>)
                         ''Failed to fetch Descript page: HTTP 503''),
          [HttpGet ''https://d''])"
    by (simp add: dec_503)
  from b r n2 have 2: "POST_A exampleHost [] (exampleNetwork 200 404 (Threw [])) 0 7 (Some (JObj exampleRequest))
       = (Respond 502 (failure (noMetadata\<lparr>source_url := Some ''https://d'',
                                             transcript_json_url := Some ''https://t/1.json''\<rparr>)
                         ''Failed to fetch transcript JSON: HTTP 404''),
          [HttpGet ''https://d'', HttpGet ''https://t/1.json''])"
    by (simp add: dec_404 example_page_A)
  from c n3 example_share_url have 3: "GET_B (exampleNetwork 200 500 (Threw []))
        (Some ''https://share.descript.com/view/abc'') (Some ''true'')
       = (bad ''failed to fetch transcript json (500)'' 502,
          [HttpGet ''https://share.descript.com/view/abc'', HttpGet ''https://t/1.json''])"
    by (simp add: dec_500 example_page_B)
  from r n1(2) 1 2 3 example_page_A example_share_url show ?thesis by simp
qed

lemma example_nonblank: "nonblank ''Hi''"
  by (simp add: nonblank_def trim_def isWhiteSpace_def)

subsection \<open>The outcome of the webhook\<close>

text \<open>
  C5, amended. When the extraction succeeds, variant A posts the success payload to the
  webhook and answers 200 with a payload that has the transcript text and the metadata
  \<open>source_url\<close>, \<open>transcript_json_url\<close> and \<open>processing_time\<close> of the success payload,
  whatever the webhook does; \<open>success\<close> is true exactly when the webhook answered with a
  2xx status, and then the answer is the success payload. When the webhook answers with a
  non-2xx status above 0, the answer is the success payload with \<open>success\<close> false and the
  error \<open>Make webhook returned HTTP\<close> followed by that status. When the \<open>POST\<close> throws or
  the status is 0, it is the success payload with \<open>success\<close> false and the error
  \<open>Failed to deliver results to Make webhook\<close>.
\<close>

theorem webhook_outcome_in_response:
  assumes "map_of kvs ''descript_url'' = Some (JStr d)" "d \<noteq> []"
    and "map_of kvs ''make_webhook_url'' = Some (JStr w)" "w \<noteq> []"
    and "net [] (HttpGet d) = Responded share" "ok share"
    and "extractTranscriptJsonUrlFromHtml (resp_text share) = Some turl"
    and "net [HttpGet d] (HttpGet turl) = Responded tres" "ok tres" "resp_json tres = Some doc"
    and "transformTranscriptJsonToText h doc = Inr transcriptText" "nonblank transcriptText"
    and "outgoing = \<lparr>success = True, transcript = Some transcriptText,
            metadata = \<lparr>source_url = Some d, transcript_json_url = Some turl,
                         processing_time = Some (now - startedAt)\<rparr>,
            error = None\<rparr>"
    and "post = net [HttpGet d, HttpGet turl] (HttpPost w outgoing)"
  shows "\<exists>payload.
      POST_A h te net startedAt now (Some (JObj kvs))
        = (Respond 200 payload, [HttpGet d, HttpGet turl, HttpPost w outgoing])
      \<and> transcript payload = Some transcriptText
      \<and> metadata payload = \<lparr>source_url = Some d, transcript_json_url = Some turl,
                              processing_time = Some (now - startedAt)\<rparr>
      \<and> (success payload \<longleftrightarrow> (\<exists>r. post = Responded r \<and> ok r))
      \<and> (\<forall>r. post = Responded r \<and> ok r \<longrightarrow> payload = outgoing)
      \<and> (\<forall>r. post = Responded r \<and> \<not> ok r \<and> 0 < resp_status r \<longrightarrow>
            payload = outgoing\<lparr>success := False,
                        error := Some (''Make webhook returned HTTP '' @ dec (resp_status r))\<rparr>)
      \<and> ((\<exists>msg. post = Threw msg) \<or> (\<exists>r. post = Responded r \<and> resp_status r = 0) \<longrightarrow>
            payload = outgoing\<lparr>success := False,
                        error := Some ''Failed to deliver results to Make webhook''\<rparr>)"
proof -
  have e: "POST_A h te net startedAt now (Some (JObj kvs)) = deliver net [HttpGet d, HttpGet turl] w outgoing"
    using assms(1-4) A_extracted [OF assms(5-12), of te startedAt now w]
    by (simp add: POST_A_valid assms(13))
  show ?thesis
  proof (cases post)
    case (Threw msg)
    then show ?thesis
      using assms(14) by (simp add: e deliver_def Let_def assms(13))
  next
    case (Responded r)
    then show ?thesis
      using assms(14) by (simp add: e deliver_def Let_def assms(13) ok_def)
  qed
qed

text \<open>
  C5, as stated, fails when the webhook \<open>POST\<close> fails without a response: there is no
  status then, and the error message, \<open>Failed to deliver results to Make webhook\<close>,
  contains no digit.
\<close>

theorem webhook_throw_has_no_status:
  "(\<exists>msg. exampleNetwork 200 200 (Threw ''timeout'') [HttpGet ''https://d'', HttpGet ''https://t/1.json'']
            (HttpPost ''https://w''
               \<lparr>success = True, transcript = Some ''Hi'',
                metadata = \<lparr>source_url = Some ''https://d'', transcript_json_url = Some ''https://t/1.json'',
                             processing_time = Some 7\<rparr>,
                error = None\<rparr>) = Threw msg)
   \<and> POST_A exampleHost [] (exampleNetwork 200 200 (Threw ''timeout'')) 0 7 (Some (JObj exampleRequest))
       = (Respond 200
            \<lparr>success = False, transcript = Some ''Hi'',
             metadata = \<lparr>source_url = Some ''https://d'', transcript_json_url = Some ''https://t/1.json'',
                          processing_time = Some 7\<rparr>,
             error = Some ''Failed to deliver results to Make webhook''\<rparr>,
          [HttpGet ''https://d'', HttpGet ''https://t/1.json'',
           HttpPost ''https://w''
             \<lparr>success = True, transcript = Some ''Hi'',
              metadata = \<lparr>source_url = Some ''https://d'', transcript_json_url = Some ''https://t/1.json'',
                           processing_time = Some 7\<rparr>,
              error = None\<rparr>])
   \<and> filter isDigit ''Failed to deliver results to Make webhook'' = []"
proof -
  have r: "map_of exampleRequest ''descript_url'' = Some (JStr ''https://d'')"
    "map_of exampleRequest ''make_webhook_url'' = Some (JStr ''https://w'')"
    by (simp_all add: exampleRequest_def)
  have "POST_A exampleHost [] (exampleNetwork 200 200 (Threw ''timeout'')) 0 7 (Some (JObj exampleRequest))
      = extractAndForward exampleHost [] (exampleNetwork 200 200 (Threw ''timeout'')) 0 7 ''https://d'' ''https://w''"
    using r by (simp add: POST_A_valid)
  also have "\<dots> = deliver (exampleNetwork 200 200 (Threw ''timeout''))
       [HttpGet ''https://d'', HttpGet ''https://t/1.json''] ''https://w''
       \<lparr>success = True, transcript = Some ''Hi'',
        metadata = \<lparr>source_url = Some ''https://d'', transcript_json_url = Some ''https://t/1.json'',
                     processing_time = Some (7 - 0)\<rparr>,
        error = None\<rparr>"
    by (rule A_extracted [where share = "\<lparr>resp_status = 200, resp_text = examplePage, resp_json = Some exampleDocument\<rparr>"
          and tres = "\<lparr>resp_status = 200, resp_text = examplePage, resp_json = Some exampleDocument\<rparr>"
          and doc = exampleDocument])
      (simp_all add: exampleNetwork_def ok_def example_page_A example_document example_nonblank)
  finally show ?thesis
    by (simp add: deliver_def Let_def exampleNetwork_def isDigit_def)
qed

theorem webhook_outcome_in_response_witness:
  "POST_A exampleHost [] (exampleNetwork 200 200 (Responded \<lparr>resp_status = 500, resp_text = [], resp_json = None\<rparr>))
       0 7 (Some (JObj exampleRequest))
     = (Respond 200
          \<lparr>success = False, transcript = Some ''Hi'',
           metadata = \<lparr>source_url = Some ''https://d'', transcript_json_url = Some ''https://t/1.json'',
                        processing_time = Some 7\<rparr>,
           error = Some ''Make webhook returned HTTP 500''\<rparr>,
        [HttpGet ''https://d'', HttpGet ''https://t/1.json'',
         HttpPost ''https://w''
           \<lparr>success = True, transcript = Some ''Hi'',
            metadata = \<lparr>source_url = Some ''https://d'', transcript_json_url = Some ''https://t/1.json'',
                         processing_time = Some 7\<rparr>,
            error = None\<rparr>])
   \<and> POST_A exampleHost [] (exampleNetwork 200 200 (Responded \<lparr>resp_status = 204, resp_text = [], resp_json = None\<rparr>))
       0 7 (Some (JObj exampleRequest))
     = (Respond 200
          \<lparr>success = True, transcript = Some ''Hi'',
           metadata = \<lparr>source_url = Some ''https://d'', transcript_json_url = Some ''https://t/1.json'',
                        processing_time = Some 7\<rparr>,
           error = None\<rparr>,
        [HttpGet ''https://d'', HttpGet ''https://t/1.json'',
         HttpPost ''https://w''
           \<lparr>success = True, transcript = Some ''Hi'',
            metadata = \<lparr>source_url = Some ''https://d'', transcript_json_url = Some ''https://t/1.json'',
                         processing_time = Some 7\<rparr>,
            error = None\<rparr>])"
proof -
  let ?page = "\<lparr>resp_status = 200, resp_text = examplePage, resp_json = Some exampleDocument\<rparr>"
  let ?out = "\<lparr>success = True, transcript = Some ''Hi'',
            metadata = \<lparr>source_url = Some ''https://d'', transcript_json_url = Some ''https://t/1.json'',
                         processing_time = Some 7\<rparr>,
            error = None\<rparr>"
  have r: "map_of exampleRequest ''descript_url'' = Some (JStr ''https://d'')"
    "map_of exampleRequest ''make_webhook_url'' = Some (JStr ''https://w'')"
    by (simp_all add: exampleRequest_def)
  have n: "exampleNetwork 200 200 p [] (HttpGet ''https://d'') = Responded ?page"
    "exampleNetwork 200 200 p [HttpGet ''https://d''] (HttpGet ''https://t/1.json'') = Responded ?page"
    "ok ?page" "resp_json ?page = Some exampleDocument"
    "extractTranscriptJsonUrlFromHtml (resp_text ?page) = Some ''https://t/1.json''"
    "exampleNetwork 200 200 p [HttpGet ''https://d'', HttpGet ''https://t/1.json''] (HttpPost ''https://w'' ?out) = p"
    for p
    by (simp_all add: exampleNetwork_def ok_def example_page_A)
  have s: "\<not> ok \<lparr>resp_status = 500, resp_text = [], resp_json = None\<rparr>"
    "ok \<lparr>resp_status = 204, resp_text = [], resp_json = None\<rparr>"
    by (simp_all add: ok_def)
  note a = webhook_outcome_in_response [where kvs = exampleRequest and h = exampleHost and te = "[]"
      and startedAt = 0 and now = 7 and transcriptText = "''Hi''"
      and net = "exampleNetwork 200 200 (Responded \<lparr>resp_status = 500, resp_text = [], resp_json = None\<rparr>)",
      OF r(1) _ r(2) _ n(1) n(3) n(5) n(2) n(3) n(4) example_document example_nonblank refl refl]
  note b = webhook_outcome_in_response [where kvs = exampleRequest and h = exampleHost and te = "[]"
      and startedAt = 0 and now = 7 and transcriptText = "''Hi''"
      and net = "exampleNetwork 200 200 (Responded \<lparr>resp_status = 204, resp_text = [], resp_json = None\<rparr>)",
      OF r(1) _ r(2) _ n(1) n(3) n(5) n(2) n(3) n(4) example_document example_nonblank refl refl]
  from a s(1) have 1: "POST_A exampleHost [] (exampleNetwork 200 200 (Responded \<lparr>resp_status = 500, resp_text = [], resp_json = None\<rparr>))
       0 7 (Some (JObj exampleRequest))
     = (Respond 200 (?out\<lparr>success := False, error := Some ''Make webhook returned HTTP 500''\<rparr>),
        [HttpGet ''https://d'', HttpGet ''https://t/1.json'', HttpPost ''https://w'' ?out])"
    by (auto simp: n(6) dec_500)
  from b s(2) have 2: "POST_A exampleHost [] (exampleNetwork 200 200 (Responded \<lparr>resp_status = 204, resp_text = [], resp_json = None\<rparr>))
       0 7 (Some (JObj exampleRequest))
     = (Respond 200 ?out,
        [HttpGet ''https://d'', HttpGet ''https://t/1.json'', HttpPost ''https://w'' ?out])"
    by (auto simp: n(6))
  from 1 2 show ?thesis by simp
qed

end
